theory Spec2Isabelle
  imports Main
begin

section \<open>The document model boundary\<close>

text \<open>
  The generator of \<^verbatim>\<open>src/core/generator.py\<close> works on the object model of the
  slide-deck library. The parts of that object model the generator reads and writes are
  records here; a Python attribute that can be missing is an \<open>option\<close>.
  A procedure that mutates an object returns the object after the call together with its
  outcome, so that what was changed before an exception is still there after it.
\<close>

datatype PP_PLACEHOLDER = TITLE | BODY | OBJECT | OTHER_PLACEHOLDER

datatype MSO_SHAPE_TYPE = PICTURE | TEXT_BOX | AUTO_SHAPE | PLACEHOLDER | OTHER_SHAPE_TYPE

datatype error =
  PackageNotFoundError | IndexError | AttributeError | ValueError
  | UnidentifiedImageError | PermissionError

type_synonym path = string

type_synonym blob = string

record text_paragraph =
  p_text :: string
  level :: nat
  alignment :: "int option"
  font_name :: "string option"
  font_size :: "int option"

datatype ph_format = PlaceholderFormat (idx: nat) (ph_type: PP_PLACEHOLDER)

text \<open>
  \<open>placeholder_format\<close> is \<open>None\<close> for a shape that is not a placeholder
  (\<^verbatim>\<open>shape.is_placeholder\<close> is false). \<open>text_frame\<close> is \<open>None\<close> for a shape that cannot hold
  text, \<open>image_blob\<close> is \<open>None\<close> for a picture whose image is linked and not embedded
  (reading \<^verbatim>\<open>shape.image\<close> raises then), \<open>rotation\<close> is \<open>None\<close> when the shape has no such
  attribute. Lengths are in EMU; the rotation, a number of degrees, is only ever copied.
\<close>

record shape =
  placeholder_format :: "ph_format option"
  shape_type :: MSO_SHAPE_TYPE
  left :: int
  top_pos :: int
  width :: int
  height :: int
  rotation :: "int option"
  text_frame :: "text_paragraph list option"
  image_blob :: "blob option"

record layout =
  layout_name :: string
  layout_placeholders :: "shape list"

record slide =
  slide_layout :: layout
  shapes :: "shape list"

record presentation =
  slides :: "slide list"
  slide_layouts :: "layout list"

datatype file_content = Deck presentation | Corrupt

text \<open>The file system as the generator sees it: what a read of each path yields.\<close>

type_synonym filesystem = "path \<Rightarrow> file_content option"

text \<open>
  What the generator takes from its surroundings: the layouts of the library's built-in
  default deck (\<^verbatim>\<open>Presentation()\<close>), which image data the library accepts in
  \<^verbatim>\<open>add_picture\<close>, which paths can be written, and which file a path names.
  \<open>realpath\<close> gives the canonical name of the file that a path names: two paths name
  the same file exactly when their canonical names are equal, as \<^verbatim>\<open>./deck.pptx\<close> and
  \<^verbatim>\<open>deck.pptx\<close> do. The generator itself never compares or normalises a path.
\<close>

record env =
  default_layouts :: "layout list"
  image_ok :: "blob \<Rightarrow> bool"
  writable :: "path \<Rightarrow> bool"
  realpath :: "path \<Rightarrow> path"

definition same_file :: "env \<Rightarrow> path \<Rightarrow> path \<Rightarrow> bool" where
  "same_file e p q = (realpath e p = realpath e q)"

text \<open>One content item: a dict read with \<^verbatim>\<open>.get("title", "")\<close> and \<^verbatim>\<open>.get("points", [])\<close>.\<close>

record content =
  title :: "string option"
  points :: "string list option"

definition is_placeholder :: "shape \<Rightarrow> bool" where
  "is_placeholder sh = (placeholder_format sh \<noteq> None)"

definition new_paragraph :: "string \<Rightarrow> text_paragraph" where
  "new_paragraph s =
     \<lparr>p_text = s, level = 0, alignment = None, font_name = None, font_size = None\<rparr>"

text \<open>\<^verbatim>\<open>xs[i]\<close> for a non-negative index: IndexError out of range.\<close>

definition getitem :: "'a list \<Rightarrow> nat \<Rightarrow> error + 'a" where
  "getitem xs i = (if i < length xs then Inr (xs ! i) else Inl IndexError)"

text \<open>\<^verbatim>\<open>del xs[i]\<close>.\<close>

definition delitem :: "'a list \<Rightarrow> nat \<Rightarrow> error + 'a list" where
  "delitem xs i = (if i < length xs then Inr (take i xs @ drop (Suc i) xs) else Inl IndexError)"

text \<open>
  Modelled from the spec: \<^verbatim>\<open>Presentation(path)\<close> of the library, the \<open>open(path)\<close> of the
  document model boundary. It returns the deck stored at the path and raises when the
  path holds no deck.
\<close>

definition Presentation_open :: "filesystem \<Rightarrow> path \<Rightarrow> error + presentation" where
  "Presentation_open files p =
     (case files p of
        Some (Deck d) \<Rightarrow> Inr d
      | _ \<Rightarrow> Inl PackageNotFoundError)"

text \<open>
  Modelled from the spec: \<^verbatim>\<open>Presentation()\<close> of the library, the fresh, template-less
  document. It has the layouts of the library's default deck, a parameter here, and no
  slide.
\<close>

definition Presentation_default :: "env \<Rightarrow> presentation" where
  "Presentation_default e = \<lparr>slides = [], slide_layouts = default_layouts e\<rparr>"

text \<open>
  A write to a path creates or overwrites the file the path names: afterwards every path
  that names this file reads as the new content, and every other path reads as before.
\<close>

definition write_file :: "env \<Rightarrow> filesystem \<Rightarrow> path \<Rightarrow> file_content \<Rightarrow> filesystem" where
  "write_file e files p c = (\<lambda>q. if same_file e q p then Some c else files q)"

text \<open>
  Modelled from the spec: \<^verbatim>\<open>prs.save(path)\<close> of the library. It stores the deck in the
  file the path names, creating or overwriting it, and raises, leaving the file system as
  it is, when the path cannot be written.
\<close>

definition save :: "env \<Rightarrow> filesystem \<Rightarrow> presentation \<Rightarrow> path \<Rightarrow> error option \<times> filesystem" where
  "save e files prs p =
     (if writable e p then (None, write_file e files p (Deck prs))
      else (Some PermissionError, files))"

text \<open>
  Modelled from the spec: \<^verbatim>\<open>slides.add_slide(layout)\<close> of the library. The new slide is
  appended to the deck and starts with one empty placeholder for each placeholder of its
  layout, in the layout's order.
\<close>

definition clone_placeholder :: "shape \<Rightarrow> shape" where
  "clone_placeholder ph =
     ph\<lparr>shape_type := PLACEHOLDER, text_frame := Some [new_paragraph []], image_blob := None\<rparr>"

definition new_slide_from :: "layout \<Rightarrow> slide" where
  "new_slide_from l =
     \<lparr>slide_layout = l,
      shapes = map clone_placeholder (filter is_placeholder (layout_placeholders l))\<rparr>"

definition add_slide :: "presentation \<Rightarrow> layout \<Rightarrow> presentation" where
  "add_slide prs l = prs\<lparr>slides := slides prs @ [new_slide_from l]\<rparr>"

section \<open>TemplateAnalyzer: find_best_content_slide\<close>

text \<open>
  The inner loop over \<^verbatim>\<open>slide.shapes\<close>: the state is
  \<open>(score, has_title, has_content_area)\<close>.
\<close>

fun score_shapes :: "shape list \<Rightarrow> int \<times> bool \<times> bool \<Rightarrow> int \<times> bool \<times> bool" where
  "score_shapes [] st = st"
| "score_shapes (sh # rest) (score, has_title, has_content_area) =
     (case placeholder_format sh of
        None \<Rightarrow> score_shapes rest (score, has_title, has_content_area)
      | Some pf \<Rightarrow>
          if ph_type pf = TITLE
          then score_shapes rest (score + 2, True, has_content_area)
          else if ph_type pf = BODY \<or> ph_type pf = OBJECT
          then score_shapes rest (score + 3, has_title, True)
          else score_shapes rest (score, has_title, has_content_area))"

definition slide_score :: "slide \<Rightarrow> int" where
  "slide_score s =
     (case score_shapes (shapes s) (0, False, False) of
        (score, has_title, has_content_area) \<Rightarrow>
          if has_title \<and> has_content_area then score + 5 else score)"

text \<open>The outer loop over \<^verbatim>\<open>template_prs.slides\<close>, with \<open>best_slide\<close> and \<open>best_score\<close>.\<close>

fun best_loop :: "slide list \<Rightarrow> slide option \<Rightarrow> int \<Rightarrow> slide option" where
  "best_loop [] best_slide best_score = best_slide"
| "best_loop (s # rest) best_slide best_score =
     (if slide_score s > best_score
      then best_loop rest (Some s) (slide_score s)
      else best_loop rest best_slide best_score)"

definition find_best_content_slide :: "presentation \<Rightarrow> slide option" where
  "find_best_content_slide template_prs = best_loop (slides template_prs) None 0"

section \<open>Text frames\<close>

text \<open>
  Modelled from the spec: the text-frame operations of the library. \<^verbatim>\<open>shape.text\<close> reads
  the paragraphs' texts joined by line feeds, and assigning to it replaces the paragraphs
  by one fresh paragraph for each line of the string. \<^verbatim>\<open>text_frame.clear()\<close> keeps the
  first paragraph, emptied, and removes the others. Assigning \<^verbatim>\<open>.text\<close> on an object
  without a text frame sets a plain Python attribute and leaves the document as it is.

  A paragraph does not keep every string as it is. The library's \<^verbatim>\<open>append_text\<close>, which
  both assignments go through, turns each line feed and each vertical tab of the string
  into a line break, which reads back as a vertical tab, and stores every other control
  character below U+0020 except the horizontal tab as the escape \<^verbatim>\<open>_xHHHH_\<close>
  (\<^verbatim>\<open>_escape_ctrl_chars\<close>), which reads back as these seven characters. \<open>append_text s\<close>
  is what a paragraph reads back after \<open>s\<close> has been assigned to it; \<open>p_text\<close> is the
  text as it reads back.
\<close>

definition hex_digit :: "nat \<Rightarrow> char" where
  "hex_digit n = ''0123456789ABCDEF'' ! (n mod 16)"

definition escape_ctrl_char :: "char \<Rightarrow> string" where
  "escape_ctrl_char c =
     (if (of_char c :: nat) < 9 \<or> (11 \<le> (of_char c :: nat) \<and> (of_char c :: nat) < 32)
      then ''_x00'' @ [hex_digit (of_char c div 16), hex_digit (of_char c)] @ ''_''
      else [c])"

definition append_text :: "string \<Rightarrow> string" where
  "append_text s =
     concat (map (\<lambda>c. if c = CHR 0x0A \<or> c = CHR 0x0B then [CHR 0x0B] else escape_ctrl_char c) s)"

fun join_lines :: "string list \<Rightarrow> string" where
  "join_lines [] = []"
| "join_lines [l] = l"
| "join_lines (l # m # ls) = l @ CHR 0x0A # join_lines (m # ls)"

fun split_lines :: "string \<Rightarrow> string list" where
  "split_lines [] = [[]]"
| "split_lines (c # cs) =
     (if c = CHR 0x0A then [] # split_lines cs
      else (case split_lines cs of
              [] \<Rightarrow> [[c]]
            | l # ls \<Rightarrow> (c # l) # ls))"

definition get_text :: "text_paragraph list \<Rightarrow> string" where
  "get_text tf = join_lines (map p_text tf)"

definition set_text :: "string \<Rightarrow> shape \<Rightarrow> shape" where
  "set_text s sh =
     (case text_frame sh of
        None \<Rightarrow> sh
      | Some tf \<Rightarrow>
          sh\<lparr>text_frame := Some (map (\<lambda>l. new_paragraph (append_text l)) (split_lines s))\<rparr>)"

definition clear :: "text_paragraph list \<Rightarrow> text_paragraph list" where
  "clear tf = (case tf of [] \<Rightarrow> [new_paragraph []] | p # ps \<Rightarrow> [p\<lparr>p_text := []\<rparr>])"

text \<open>The object a Python variable refers to is the position of the shape in its slide.\<close>

definition update_shape :: "nat \<Rightarrow> (shape \<Rightarrow> shape) \<Rightarrow> slide \<Rightarrow> slide" where
  "update_shape i f s = s\<lparr>shapes := (shapes s)[i := f (shapes s ! i)]\<rparr>"

text \<open>
  \<^verbatim>\<open>except Exception as e: print(...)\<close> around a procedure: the exception is swallowed and
  the object stays as the body left it.
\<close>

definition try_except :: "error option \<times> 's \<Rightarrow> error option \<times> 's" where
  "try_except r = (None, snd r)"

section \<open>ShapeReplicator\<close>

text \<open>
  \<^verbatim>\<open>copy_text_formatting\<close>: the loop over \<^verbatim>\<open>zip(source_tf.paragraphs, target_tf.paragraphs)\<close>
  stops with the shorter list, so the paragraphs of the target past it stay as they are.
  Every paragraph has an alignment and a font, so the two \<^verbatim>\<open>hasattr\<close> tests hold; a font
  name or size is copied when it is truthy, that is neither \<^verbatim>\<open>None\<close> nor empty or 0.
\<close>

definition copy_paragraph_formatting :: "text_paragraph \<Rightarrow> text_paragraph \<Rightarrow> text_paragraph" where
  "copy_paragraph_formatting src_para tgt_para =
     (let t1 = tgt_para\<lparr>alignment := alignment src_para\<rparr>;
          t2 = (if font_name src_para \<noteq> None \<and> font_name src_para \<noteq> Some []
                then t1\<lparr>font_name := font_name src_para\<rparr> else t1)
      in if font_size src_para \<noteq> None \<and> font_size src_para \<noteq> Some 0
         then t2\<lparr>font_size := font_size src_para\<rparr> else t2)"

definition copy_text_formatting ::
  "text_paragraph list \<Rightarrow> text_paragraph list \<Rightarrow> error option \<times> text_paragraph list" where
  "copy_text_formatting source_tf target_tf =
     try_except
       (None, map (\<lambda>(src_para, tgt_para). copy_paragraph_formatting src_para tgt_para)
                (zip source_tf target_tf)
              @ drop (length source_tf) target_tf)"

text \<open>
  Modelled from the spec: \<^verbatim>\<open>shapes.add_textbox\<close> of the library. The new text box has
  the given box and one empty paragraph.
\<close>

definition add_textbox :: "int \<Rightarrow> int \<Rightarrow> int \<Rightarrow> int \<Rightarrow> shape" where
  "add_textbox l t w h =
     \<lparr>placeholder_format = None, shape_type = TEXT_BOX, left = l, top_pos = t, width = w,
      height = h, rotation = Some 0, text_frame = Some [new_paragraph []], image_blob = None\<rparr>"

text \<open>
  \<^verbatim>\<open>copy_text_or_shape\<close>: \<^verbatim>\<open>hasattr(source_shape, 'text')\<close> holds when the shape has a text
  frame; text frames are truthy objects. The branch for shapes without text is
  \<^verbatim>\<open>pass\<close>.
\<close>

definition copy_text_or_shape :: "shape \<Rightarrow> slide \<Rightarrow> error option \<times> slide" where
  "copy_text_or_shape source_shape target_slide =
     try_except
       (case text_frame source_shape of
          Some source_tf \<Rightarrow>
            (let textbox = add_textbox (left source_shape) (top_pos source_shape)
                             (width source_shape) (height source_shape);
                 textbox1 = set_text (get_text source_tf) textbox
             in case text_frame textbox1 of
                  Some target_tf \<Rightarrow>
                    (case copy_text_formatting source_tf target_tf of
                       (r, target_tf') \<Rightarrow>
                         (r, target_slide\<lparr>shapes := shapes target_slide
                                @ [textbox1\<lparr>text_frame := Some target_tf'\<rparr>]\<rparr>))
                | None \<Rightarrow> (None, target_slide\<lparr>shapes := shapes target_slide @ [textbox1]\<rparr>))
        | None \<Rightarrow> (None, target_slide))"

text \<open>
  \<^verbatim>\<open>copy_generic_shape\<close>: the body of its \<^verbatim>\<open>try\<close> is \<^verbatim>\<open>pass\<close>.
\<close>

definition copy_generic_shape :: "shape \<Rightarrow> slide \<Rightarrow> error option \<times> slide" where
  "copy_generic_shape source_shape target_slide = try_except (None, target_slide)"

text \<open>
  Modelled from the spec: \<^verbatim>\<open>shapes.add_picture\<close> of the library, the picture-insertion
  operation taking a byte stream and a bounding box. The new picture has the given image
  and box and is not rotated; \<open>copy_image_shape\<close> below appends it to the slide when the
  library accepts the image.
\<close>

definition add_picture :: "blob \<Rightarrow> int \<Rightarrow> int \<Rightarrow> int \<Rightarrow> int \<Rightarrow> shape" where
  "add_picture image_data l t w h =
     \<lparr>placeholder_format = None, shape_type = PICTURE, left = l, top_pos = t, width = w,
      height = h, rotation = Some 0, text_frame = None, image_blob = Some image_data\<rparr>"

text \<open>
  \<^verbatim>\<open>copy_image_shape\<close>: reading \<^verbatim>\<open>source_shape.image.blob\<close> raises for a picture without an
  embedded image, and \<^verbatim>\<open>add_picture\<close> raises for image data the library does not accept;
  both happen before the slide is touched.
\<close>

definition copy_image_shape :: "env \<Rightarrow> shape \<Rightarrow> slide \<Rightarrow> error option \<times> slide" where
  "copy_image_shape e source_shape target_slide =
     try_except
       (case image_blob source_shape of
          None \<Rightarrow> (Some ValueError, target_slide)
        | Some image_data \<Rightarrow>
            if \<not> image_ok e image_data then (Some UnidentifiedImageError, target_slide)
            else
              (let pic = add_picture image_data (left source_shape) (top_pos source_shape)
                           (width source_shape) (height source_shape);
                   pic1 = (case rotation source_shape of
                             Some r \<Rightarrow> pic\<lparr>rotation := Some r\<rparr>
                           | None \<Rightarrow> pic)
               in (None, target_slide\<lparr>shapes := shapes target_slide @ [pic1]\<rparr>)))"

text \<open>
  \<^verbatim>\<open>copy_shape_to_slide\<close>: the dispatch on \<^verbatim>\<open>shape_type\<close>; the generic copy has a
  \<^verbatim>\<open>try\<close> of its own inside the outer one.
\<close>

definition copy_shape_to_slide :: "env \<Rightarrow> shape \<Rightarrow> slide \<Rightarrow> error option \<times> slide" where
  "copy_shape_to_slide e source_shape target_slide =
     try_except
       (if shape_type source_shape = PICTURE
        then copy_image_shape e source_shape target_slide
        else if shape_type source_shape = TEXT_BOX \<or> shape_type source_shape = AUTO_SHAPE
        then copy_text_or_shape source_shape target_slide
        else try_except (copy_generic_shape source_shape target_slide))"

text \<open>The loop over \<^verbatim>\<open>shapes_to_copy\<close>: an exception would leave it.\<close>

fun copy_each :: "env \<Rightarrow> shape list \<Rightarrow> slide \<Rightarrow> error option \<times> slide" where
  "copy_each e [] new_slide = (None, new_slide)"
| "copy_each e (sh # rest) new_slide =
     (case copy_shape_to_slide e sh new_slide of
        (Some err, new_slide') \<Rightarrow> (Some err, new_slide')
      | (None, new_slide') \<Rightarrow> copy_each e rest new_slide')"

text \<open>
  \<^verbatim>\<open>copy_template_visual_elements\<close>: \<^verbatim>\<open>shapes_to_copy\<close> are the shapes of the template
  slide that are no placeholders.
\<close>

definition copy_template_visual_elements :: "env \<Rightarrow> slide \<Rightarrow> slide \<Rightarrow> error option \<times> slide" where
  "copy_template_visual_elements e template_slide new_slide =
     try_except
       (let shapes_to_copy = filter (\<lambda>sh. \<not> is_placeholder sh) (shapes template_slide)
        in copy_each e shapes_to_copy new_slide)"

section \<open>ContentPopulator\<close>

text \<open>
  The scan of \<^verbatim>\<open>slide.shapes\<close> in \<^verbatim>\<open>populate_slide_content\<close>: \<open>i\<close> is the position of
  the next shape, the state is \<open>(title_shape, content_shape)\<close>.
\<close>

fun scan_placeholders ::
  "shape list \<Rightarrow> nat \<Rightarrow> nat option \<times> nat option \<Rightarrow> nat option \<times> nat option" where
  "scan_placeholders [] i st = st"
| "scan_placeholders (sh # rest) i (title_shape, content_shape) =
     (case placeholder_format sh of
        None \<Rightarrow> scan_placeholders rest (Suc i) (title_shape, content_shape)
      | Some pf \<Rightarrow>
          if ph_type pf = TITLE
          then scan_placeholders rest (Suc i) (Some i, content_shape)
          else if ph_type pf = BODY \<or> ph_type pf = OBJECT
          then scan_placeholders rest (Suc i) (title_shape, Some i)
          else scan_placeholders rest (Suc i) (title_shape, content_shape))"

text \<open>
  The point-population rule: the frame is cleared, the first point goes into paragraph 0,
  every other point into a new paragraph at level 0.
\<close>

definition fill_points :: "string list \<Rightarrow> text_paragraph list \<Rightarrow> text_paragraph list" where
  "fill_points pts tf =
     (let tf1 = clear tf
      in case pts of
           [] \<Rightarrow> tf1
         | p0 # others \<Rightarrow>
             (case tf1 of
                [] \<Rightarrow> []
              | p # ps \<Rightarrow> p\<lparr>p_text := append_text p0\<rparr> # ps)
             @ map (\<lambda>point_text. (new_paragraph (append_text point_text))\<lparr>level := 0\<rparr>) others)"

text \<open>
  \<^verbatim>\<open>populate_slide_content\<close>: \<open>title_shape\<close> and \<open>content_shape\<close> are positions in
  \<open>shapes\<close>; shapes are truthy objects, so \<^verbatim>\<open>if title_shape and title\<close> asks for a
  position and a non-empty title. Reading \<^verbatim>\<open>content_shape.text_frame\<close> raises for a shape
  that cannot hold text; the title has been set by then.
\<close>

definition populate_slide_content :: "slide \<Rightarrow> content \<Rightarrow> error option \<times> slide" where
  "populate_slide_content s c =
     (let title_text = (case title c of Some t \<Rightarrow> t | None \<Rightarrow> []);
          pts = (case points c of Some ps \<Rightarrow> ps | None \<Rightarrow> []);
          sel = scan_placeholders (shapes s) 0 (None, None);
          s1 = (case fst sel of
                  Some ti \<Rightarrow> if title_text \<noteq> [] then update_shape ti (set_text title_text) s else s
                | None \<Rightarrow> s)
      in case snd sel of
           Some ci \<Rightarrow>
             if pts \<noteq> [] then
               (case text_frame (shapes s1 ! ci) of
                  None \<Rightarrow> (Some AttributeError, s1)
                | Some tf \<Rightarrow>
                    (None, update_shape ci (\<lambda>sh. sh\<lparr>text_frame := Some (fill_points pts tf)\<rparr>) s1))
             else (None, s1)
         | None \<Rightarrow> (None, s1))"

section \<open>SlideFactory\<close>

text \<open>
  The new slide is the last slide of \<open>new_prs\<close>; what is done to it is done to the deck.
\<close>

definition duplicate_slide_with_content ::
  "env \<Rightarrow> presentation \<Rightarrow> layout \<Rightarrow> slide option \<Rightarrow> content \<Rightarrow> error option \<times> presentation" where
  "duplicate_slide_with_content e new_prs l template_slide c =
     (let new_prs1 = add_slide new_prs l;
          new_slide = last (slides new_prs1);
          put = (\<lambda>s. new_prs1\<lparr>slides := butlast (slides new_prs1) @ [s]\<rparr>)
      in case (case template_slide of
                 Some t \<Rightarrow> copy_template_visual_elements e t new_slide
               | None \<Rightarrow> (None, new_slide)) of
           (Some err, s1) \<Rightarrow> (Some err, put s1)
         | (None, s1) \<Rightarrow>
             (case populate_slide_content s1 c of
                (r, s2) \<Rightarrow> (r, put s2)))"

section \<open>FallbackBuilder: create_basic_presentation\<close>

text \<open>
  Modelled from the spec: \<^verbatim>\<open>slide.shapes.title\<close> and \<^verbatim>\<open>slide.placeholders\<close> of the
  library. The title shape is the first placeholder whose \<open>idx\<close> is 0, and the
  placeholders are yielded in the order of their \<open>idx\<close>, placeholders of equal \<open>idx\<close> in
  shape order. Both are given as positions in \<open>shapes\<close>.
\<close>

definition ph_idx :: "shape \<Rightarrow> nat" where
  "ph_idx sh = (case placeholder_format sh of Some pf \<Rightarrow> idx pf | None \<Rightarrow> 0)"

definition shapes_title :: "slide \<Rightarrow> nat option" where
  "shapes_title s =
     (case filter (\<lambda>i. is_placeholder (shapes s ! i) \<and> ph_idx (shapes s ! i) = 0)
             [0..<length (shapes s)] of
        [] \<Rightarrow> None
      | i # rest \<Rightarrow> Some i)"

definition placeholders :: "slide \<Rightarrow> nat list" where
  "placeholders s =
     sort_key (\<lambda>i. ph_idx (shapes s ! i))
       (filter (\<lambda>i. is_placeholder (shapes s ! i)) [0..<length (shapes s)])"

text \<open>The loop over \<^verbatim>\<open>slide.placeholders\<close>, left by \<^verbatim>\<open>break\<close> at the first BODY placeholder.\<close>

fun set_content :: "nat list \<Rightarrow> slide \<Rightarrow> content \<Rightarrow> error option \<times> slide" where
  "set_content [] s c = (None, s)"
| "set_content (i # rest) s c =
     (case placeholder_format (shapes s ! i) of
        None \<Rightarrow> (Some ValueError, s)
      | Some pf \<Rightarrow>
          if ph_type pf = BODY then
            (case text_frame (shapes s ! i) of
               None \<Rightarrow> (Some AttributeError, s)
             | Some tf \<Rightarrow>
                 (let pts = (case points c of Some ps \<Rightarrow> ps | None \<Rightarrow> [])
                  in (None, update_shape i (\<lambda>sh. sh\<lparr>text_frame := Some (fill_points pts tf)\<rparr>) s)))
          else set_content rest s c)"

text \<open>The body of the loop over \<^verbatim>\<open>slide_data\<close>, after \<^verbatim>\<open>add_slide\<close>.\<close>

definition basic_slide_content :: "slide \<Rightarrow> content \<Rightarrow> error option \<times> slide" where
  "basic_slide_content s c =
     (let s1 = (case shapes_title s of
                  Some ti \<Rightarrow> update_shape ti (set_text (case title c of Some t \<Rightarrow> t | None \<Rightarrow> [])) s
                | None \<Rightarrow> s)
      in set_content (placeholders s1) s1 c)"

fun basic_slides :: "layout \<Rightarrow> content list \<Rightarrow> presentation \<Rightarrow> error option \<times> presentation" where
  "basic_slides l [] prs = (None, prs)"
| "basic_slides l (c # rest) prs =
     (let prs1 = add_slide prs l
      in case basic_slide_content (last (slides prs1)) c of
           (Some err, s1) \<Rightarrow> (Some err, prs1\<lparr>slides := butlast (slides prs1) @ [s1]\<rparr>)
         | (None, s1) \<Rightarrow> basic_slides l rest (prs1\<lparr>slides := butlast (slides prs1) @ [s1]\<rparr>))"

text \<open>The default layout: the second layout if there is one, else the first.\<close>

definition basic_layout :: "presentation \<Rightarrow> error + layout" where
  "basic_layout prs =
     (if length (slide_layouts prs) > 1 then getitem (slide_layouts prs) 1
      else getitem (slide_layouts prs) 0)"

text \<open>
  \<^verbatim>\<open>create_basic_presentation\<close>: an exception of the layout choice, of the loop or of the
  save leaves the function; the deck being built is dropped with it.
\<close>

definition create_basic_presentation ::
  "env \<Rightarrow> filesystem \<Rightarrow> content list \<Rightarrow> path \<Rightarrow> (error + path) \<times> filesystem" where
  "create_basic_presentation e files slide_data output_path =
     (let prs = Presentation_default e
      in case basic_layout prs of
           Inl err \<Rightarrow> (Inl err, files)
         | Inr l \<Rightarrow>
             (case basic_slides l slide_data prs of
                (Some err, prs') \<Rightarrow> (Inl err, files)
              | (None, prs') \<Rightarrow>
                  (case save e files prs' output_path of
                     (Some err, files') \<Rightarrow> (Inl err, files')
                   | (None, files') \<Rightarrow> (Inr output_path, files'))))"

section \<open>Orchestrator: create_ppt_from_template\<close>

text \<open>
  The loop that removes the slides of the opened template, over
  \<^verbatim>\<open>reversed(slide_indices)\<close>. The slide id list is the list of slides; the relationship
  dropped with each entry is not part of the model.
\<close>

fun remove_slides :: "nat list \<Rightarrow> presentation \<Rightarrow> error option \<times> presentation" where
  "remove_slides [] new_prs = (None, new_prs)"
| "remove_slides (i # rest) new_prs =
     (case getitem (slides new_prs) i of
        Inl err \<Rightarrow> (Some err, new_prs)
      | Inr sld \<Rightarrow>
          (case delitem (slides new_prs) i of
             Inl err \<Rightarrow> (Some err, new_prs)
           | Inr remaining \<Rightarrow> remove_slides rest (new_prs\<lparr>slides := remaining\<rparr>)))"

text \<open>The loop over \<^verbatim>\<open>slide_data\<close> on the template path.\<close>

fun build_slides ::
  "env \<Rightarrow> layout \<Rightarrow> slide option \<Rightarrow> content list \<Rightarrow> presentation \<Rightarrow> error option \<times> presentation" where
  "build_slides e l template_slide [] new_prs = (None, new_prs)"
| "build_slides e l template_slide (c # rest) new_prs =
     (case duplicate_slide_with_content e new_prs l template_slide c of
        (Some err, new_prs') \<Rightarrow> (Some err, new_prs')
      | (None, new_prs') \<Rightarrow> build_slides e l template_slide rest new_prs')"

text \<open>
  The layout of the new slides: the layout of the exemplar slide, or else the layout at
  index 1 of the template.
\<close>

definition template_slide_layout :: "presentation \<Rightarrow> slide option \<Rightarrow> error + layout" where
  "template_slide_layout template_prs template_slide =
     (case template_slide of
        Some t \<Rightarrow> Inr (slide_layout t)
      | None \<Rightarrow> getitem (slide_layouts template_prs) 1)"

text \<open>The body of the \<^verbatim>\<open>try\<close> statement.\<close>

definition template_attempt ::
  "env \<Rightarrow> filesystem \<Rightarrow> content list \<Rightarrow> path \<Rightarrow> path \<Rightarrow> (error + path) \<times> filesystem" where
  "template_attempt e files slide_data output_path template_path =
     (case Presentation_open files template_path of
        Inl err \<Rightarrow> (Inl err, files)
      | Inr template_prs \<Rightarrow>
          (let template_slide = find_best_content_slide template_prs
           in case template_slide_layout template_prs template_slide of
                Inl err \<Rightarrow> (Inl err, files)
              | Inr l \<Rightarrow>
                  (case Presentation_open files template_path of
                     Inl err \<Rightarrow> (Inl err, files)
                   | Inr new_prs \<Rightarrow>
                       (case remove_slides (rev [0..<length (slides new_prs)]) new_prs of
                          (Some err, new_prs1) \<Rightarrow> (Inl err, files)
                        | (None, new_prs1) \<Rightarrow>
                            (case build_slides e l template_slide slide_data new_prs1 of
                               (Some err, new_prs2) \<Rightarrow> (Inl err, files)
                             | (None, new_prs2) \<Rightarrow>
                                 (case save e files new_prs2 output_path of
                                    (Some err, files') \<Rightarrow> (Inl err, files')
                                  | (None, files') \<Rightarrow> (Inr output_path, files')))))))"

text \<open>
  \<^verbatim>\<open>create_ppt_from_template(slide_data, output_path, template_path)\<close>; the fourth
  parameter of the source, \<^verbatim>\<open>template_style\<close>, is never read. The function returns its
  result, or the exception that leaves it, and the file system after the call.
\<close>

definition create_ppt_from_template ::
  "env \<Rightarrow> filesystem \<Rightarrow> content list \<Rightarrow> path \<Rightarrow> path option \<Rightarrow> (error + path) \<times> filesystem" where
  "create_ppt_from_template e files slide_data output_path template_path =
     (case template_path of
        None \<Rightarrow> create_basic_presentation e files slide_data output_path
      | Some tp \<Rightarrow>
          if tp = [] \<or> files tp = None
          then create_basic_presentation e files slide_data output_path
          else
            (case template_attempt e files slide_data output_path tp of
               (Inl err, files') \<Rightarrow> create_basic_presentation e files' slide_data output_path
             | (Inr p, files') \<Rightarrow> (Inr p, files')))"

section \<open>Notions used to state the properties\<close>

text \<open>A Title placeholder, and a Body or Object placeholder.\<close>

definition is_title_ph :: "shape \<Rightarrow> bool" where
  "is_title_ph sh = (case placeholder_format sh of Some pf \<Rightarrow> ph_type pf = TITLE | None \<Rightarrow> False)"

definition is_content_ph :: "shape \<Rightarrow> bool" where
  "is_content_ph sh =
     (case placeholder_format sh of
        Some pf \<Rightarrow> ph_type pf = BODY \<or> ph_type pf = OBJECT
      | None \<Rightarrow> False)"

text \<open>The position of the last element of a list that satisfies \<open>P\<close>.\<close>

fun last_index :: "('a \<Rightarrow> bool) \<Rightarrow> 'a list \<Rightarrow> nat option" where
  "last_index P [] = None"
| "last_index P (x # xs) =
     (case last_index P xs of
        Some j \<Rightarrow> Some (Suc j)
      | None \<Rightarrow> if P x then Some 0 else None)"

text \<open>Every placeholder of the slide can hold text.\<close>

definition ph_text_ok :: "slide \<Rightarrow> bool" where
  "ph_text_ok s = list_all (\<lambda>sh. is_placeholder sh \<longrightarrow> text_frame sh \<noteq> None) (shapes s)"

text \<open>What copying the shape \<open>sh\<close> alone, onto a slide without shapes, leaves on that slide.\<close>

definition copied :: "env \<Rightarrow> shape \<Rightarrow> shape list" where
  "copied e sh =
     shapes (snd (copy_shape_to_slide e sh
       \<lparr>slide_layout = \<lparr>layout_name = [], layout_placeholders = []\<rparr>, shapes = []\<rparr>))"

text \<open>The number of slides of the deck stored at a path.\<close>

definition saved_slide_count :: "filesystem \<Rightarrow> path \<Rightarrow> nat option" where
  "saved_slide_count files p =
     (case files p of Some (Deck d) \<Rightarrow> Some (length (slides d)) | _ \<Rightarrow> None)"

text \<open>
  The slide that \<open>duplicate_slide_with_content\<close> appends for an item, and the slide that one
  round of the loop of \<open>create_basic_presentation\<close> appends.
\<close>

definition generated_slide :: "env \<Rightarrow> layout \<Rightarrow> slide option \<Rightarrow> content \<Rightarrow> slide" where
  "generated_slide e l template_slide c =
     snd (populate_slide_content
            (snd (case template_slide of
                    Some t \<Rightarrow> copy_template_visual_elements e t (new_slide_from l)
                  | None \<Rightarrow> (None, new_slide_from l))) c)"

definition basic_slide :: "layout \<Rightarrow> content \<Rightarrow> slide" where
  "basic_slide l c = snd (basic_slide_content (new_slide_from l) c)"

text \<open>The numbers of Title placeholders and of Body or Object placeholders of a slide.\<close>

definition n_title :: "slide \<Rightarrow> nat" where
  "n_title s = length (filter is_title_ph (shapes s))"

definition n_content :: "slide \<Rightarrow> nat" where
  "n_content s = length (filter is_content_ph (shapes s))"

text \<open>
  The selection rule in the words of the specification: a slide scores 2 if it has a Title
  placeholder, 3 if it has a Body or Object placeholder and 5 more if it has both, and the
  slide with the highest score is returned, the first one among equals.
\<close>

definition spec_score :: "slide \<Rightarrow> int" where
  "spec_score s =
     (if 0 < n_title s then 2 else 0) + (if 0 < n_content s then 3 else 0)
     + (if 0 < n_title s \<and> 0 < n_content s then 5 else 0)"

fun spec_best :: "slide list \<Rightarrow> slide option" where
  "spec_best [] = None"
| "spec_best (s # rest) =
     (case spec_best rest of
        None \<Rightarrow> Some s
      | Some b \<Rightarrow> if spec_score s < spec_score b then Some b else Some s)"

definition spec_findBestContentSlide :: "presentation \<Rightarrow> slide option" where
  "spec_findBestContentSlide document = spec_best (slides document)"

text \<open>A shape without regard to its text.\<close>

definition no_text :: "shape \<Rightarrow> shape" where
  "no_text sh = sh\<lparr>text_frame := None\<rparr>"

text \<open>
  \<open>q\<close> is a picture at the box of \<open>src\<close>, with the image of \<open>src\<close> and with its rotation
  when \<open>src\<close> has one.
\<close>

definition picture_like :: "shape \<Rightarrow> shape \<Rightarrow> bool" where
  "picture_like src q =
     (shape_type q = PICTURE \<and> placeholder_format q = None
      \<and> left q = left src \<and> top_pos q = top_pos src
      \<and> width q = width src \<and> height q = height src
      \<and> image_blob q = image_blob src
      \<and> (case rotation src of Some r \<Rightarrow> rotation q = Some r | None \<Rightarrow> True))"

text \<open>The texts, and the indent levels, of the paragraphs of a shape.\<close>

definition paragraph_texts :: "shape \<Rightarrow> string list option" where
  "paragraph_texts sh = map_option (map p_text) (text_frame sh)"

definition paragraph_levels :: "shape \<Rightarrow> nat list option" where
  "paragraph_levels sh = map_option (map level) (text_frame sh)"

text \<open>
  The scan in the words of the specification: the first shape of each kind.
\<close>

fun first_index :: "('a \<Rightarrow> bool) \<Rightarrow> 'a list \<Rightarrow> nat option" where
  "first_index P [] = None"
| "first_index P (x # xs) = (if P x then Some 0 else map_option Suc (first_index P xs))"

definition spec_scan :: "shape list \<Rightarrow> nat option \<times> nat option" where
  "spec_scan shs = (first_index is_title_ph shs, first_index is_content_ph shs)"

text \<open>A BODY placeholder, the only kind the fallback builder fills.\<close>

definition is_body_ph :: "shape \<Rightarrow> bool" where
  "is_body_ph sh = (case placeholder_format sh of Some pf \<Rightarrow> ph_type pf = BODY | None \<Rightarrow> False)"


definition basic_deck :: "env \<Rightarrow> content list \<Rightarrow> presentation option" where
  "basic_deck e slide_data =
     (case basic_layout (Presentation_default e) of
        Inr l \<Rightarrow> Some ((Presentation_default e)\<lparr>slides := map (basic_slide l) slide_data\<rparr>)
      | Inl err \<Rightarrow> None)"


text \<open>
  The deck stored at a path, the texts of the placeholders of each of its slides, and the
  image bytes of the pictures of each of its slides.
\<close>

definition saved_deck :: "filesystem \<Rightarrow> path \<Rightarrow> presentation option" where
  "saved_deck files p = (case files p of Some (Deck d) \<Rightarrow> Some d | _ \<Rightarrow> None)"

definition deck_placeholder_texts :: "presentation \<Rightarrow> string list option list list" where
  "deck_placeholder_texts d =
     map (\<lambda>s. map paragraph_texts (filter is_placeholder (shapes s))) (slides d)"




text \<open>
  A string that the library stores as it is: no line feed, no vertical tab and no other
  control character but the horizontal tab.
\<close>

definition plain_text :: "string \<Rightarrow> bool" where
  "plain_text s = list_all (\<lambda>c. c = CHR 0x09 \<or> (32::nat) \<le> of_char c) s"

text \<open>
  The file system that holds the given files, each under every path that names it.
\<close>

definition on_disk :: "env \<Rightarrow> (path \<Rightarrow> file_content option) \<Rightarrow> filesystem" where
  "on_disk e stored = (\<lambda>p. stored (realpath e p))"

section \<open>Example decks\<close>

text \<open>
  A template with a title-only slide and a content slide that carries a logo, a linked
  picture and a text box; a deck with one blank layout and no slide; a file that is no deck.
\<close>

definition ex_title_ph :: shape where
  "ex_title_ph =
     \<lparr>placeholder_format = Some (PlaceholderFormat 0 TITLE), shape_type = PLACEHOLDER,
      left = 10, top_pos = 10, width = 900, height = 100, rotation = Some 0,
      text_frame = Some [new_paragraph ''Click to edit title''], image_blob = None\<rparr>"

definition ex_body_ph :: shape where
  "ex_body_ph =
     \<lparr>placeholder_format = Some (PlaceholderFormat 1 BODY), shape_type = PLACEHOLDER,
      left = 10, top_pos = 120, width = 900, height = 500, rotation = Some 0,
      text_frame = Some [new_paragraph ''Click to edit text''], image_blob = None\<rparr>"

definition ex_object_ph :: shape where
  "ex_object_ph = ex_body_ph\<lparr>placeholder_format := Some (PlaceholderFormat 2 OBJECT)\<rparr>"

definition ex_picture :: shape where
  "ex_picture =
     \<lparr>placeholder_format = None, shape_type = PICTURE,
      left = 700, top_pos = 20, width = 200, height = 80, rotation = Some 15,
      text_frame = None, image_blob = Some ''PNG-logo''\<rparr>"

definition ex_linked_picture :: shape where
  "ex_linked_picture = ex_picture\<lparr>image_blob := None\<rparr>"

definition ex_textbox :: shape where
  "ex_textbox =
     \<lparr>placeholder_format = None, shape_type = TEXT_BOX,
      left = 10, top_pos = 640, width = 300, height = 40, rotation = Some 0,
      text_frame = Some [(new_paragraph ''Confidential'')\<lparr>font_size := Some 12\<rparr>],
      image_blob = None\<rparr>"

definition ex_layout_title :: layout where
  "ex_layout_title = \<lparr>layout_name = ''Title Only'', layout_placeholders = [ex_title_ph]\<rparr>"

definition ex_layout_content :: layout where
  "ex_layout_content =
     \<lparr>layout_name = ''Title and Content'', layout_placeholders = [ex_title_ph, ex_body_ph]\<rparr>"

definition ex_layout_blank :: layout where
  "ex_layout_blank = \<lparr>layout_name = ''Blank'', layout_placeholders = []\<rparr>"

definition ex_slide_title :: slide where
  "ex_slide_title = \<lparr>slide_layout = ex_layout_title, shapes = [ex_title_ph]\<rparr>"

definition ex_slide_content :: slide where
  "ex_slide_content =
     \<lparr>slide_layout = ex_layout_content,
      shapes = [ex_title_ph, ex_picture, ex_body_ph, ex_linked_picture, ex_textbox]\<rparr>"

definition ex_template :: presentation where
  "ex_template =
     \<lparr>slides = [ex_slide_title, ex_slide_content],
      slide_layouts = [ex_layout_title, ex_layout_content]\<rparr>"

definition ex_bare :: presentation where
  "ex_bare = \<lparr>slides = [], slide_layouts = [ex_layout_blank]\<rparr>"

text \<open>
  The surroundings of the examples. The default deck of the library has eleven layouts, of
  which the generator reads the one at index 1; the first two are given here by the
  placeholders a new slide gets from them. \<^verbatim>\<open>Title Slide\<close> has a centred title and a
  subtitle, \<^verbatim>\<open>Title and Content\<close> has a Title placeholder and a content placeholder of
  the Object kind. A path with a leading \<^verbatim>\<open>./\<close> names the file that the rest of it names.
\<close>

definition ex_center_title_ph :: shape where
  "ex_center_title_ph =
     \<lparr>placeholder_format = Some (PlaceholderFormat 0 OTHER_PLACEHOLDER), shape_type = PLACEHOLDER,
      left = 10, top_pos = 200, width = 900, height = 150, rotation = Some 0,
      text_frame = Some [new_paragraph ''Click to edit Master title style''], image_blob = None\<rparr>"

definition ex_subtitle_ph :: shape where
  "ex_subtitle_ph =
     \<lparr>placeholder_format = Some (PlaceholderFormat 1 OTHER_PLACEHOLDER), shape_type = PLACEHOLDER,
      left = 10, top_pos = 380, width = 900, height = 150, rotation = Some 0,
      text_frame = Some [new_paragraph ''Click to edit Master subtitle style''],
      image_blob = None\<rparr>"

definition ex_content_ph :: shape where
  "ex_content_ph = ex_body_ph\<lparr>placeholder_format := Some (PlaceholderFormat 1 OBJECT)\<rparr>"

definition ex_layout_title_slide :: layout where
  "ex_layout_title_slide =
     \<lparr>layout_name = ''Title Slide'', layout_placeholders = [ex_center_title_ph, ex_subtitle_ph]\<rparr>"

definition ex_layout_object :: layout where
  "ex_layout_object =
     \<lparr>layout_name = ''Title and Content'', layout_placeholders = [ex_title_ph, ex_content_ph]\<rparr>"

definition ex_env :: env where
  "ex_env =
     \<lparr>default_layouts = [ex_layout_title_slide, ex_layout_object],
      image_ok = (\<lambda>b. b \<noteq> []),
      writable = (\<lambda>p. p \<noteq> ''/readonly/out.pptx''),
      realpath = (\<lambda>p. if take 2 p = ''./'' then drop 2 p else p)\<rparr>"

definition ex_files :: filesystem where
  "ex_files =
     on_disk ex_env
       [''template.pptx'' \<mapsto> Deck ex_template, ''broken.pptx'' \<mapsto> Corrupt,
        ''bare.pptx'' \<mapsto> Deck ex_bare]"

definition ex_items :: "content list" where
  "ex_items =
     [\<lparr>title = Some ''Intro'', points = Some [''a'', ''b'', ''c'']\<rparr>,
      \<lparr>title = Some ''Outlook'', points = None\<rparr>]"

text \<open>A template without slides whose second layout is the content layout.\<close>

definition ex_plain :: presentation where
  "ex_plain = \<lparr>slides = [], slide_layouts = [ex_layout_blank, ex_layout_content]\<rparr>"

definition ex_files_plain :: filesystem where
  "ex_files_plain = on_disk ex_env [''plain.pptx'' \<mapsto> Deck ex_plain]"

text \<open>A template whose slides carry decoration only.\<close>

definition ex_slide_decor :: slide where
  "ex_slide_decor = \<lparr>slide_layout = ex_layout_blank, shapes = [ex_picture, ex_textbox]\<rparr>"

definition ex_decor :: presentation where
  "ex_decor =
     \<lparr>slides = [ex_slide_decor, ex_slide_decor],
      slide_layouts = [ex_layout_blank, ex_layout_content]\<rparr>"

definition ex_files_decor :: filesystem where
  "ex_files_decor = on_disk ex_env [''decor.pptx'' \<mapsto> Deck ex_decor]"

text \<open>A template whose second slide has a Title, a Body and an Object placeholder.\<close>

definition ex_slide_two_content :: slide where
  "ex_slide_two_content =
     \<lparr>slide_layout = ex_layout_content, shapes = [ex_title_ph, ex_body_ph, ex_object_ph]\<rparr>"

definition ex_compare :: presentation where
  "ex_compare =
     \<lparr>slides = [ex_slide_content, ex_slide_two_content],
      slide_layouts = [ex_layout_title, ex_layout_content]\<rparr>"

text \<open>An exemplar slide whose only picture is linked.\<close>

definition ex_slide_linked :: slide where
  "ex_slide_linked =
     \<lparr>slide_layout = ex_layout_content, shapes = [ex_title_ph, ex_linked_picture, ex_body_ph]\<rparr>"

text \<open>A content item with three points.\<close>

definition ex_points_item :: content where
  "ex_points_item = \<lparr>title = Some ''Intro'', points = Some [''a'', ''b'', ''c'']\<rparr>"








section \<open>Auxiliary facts\<close>

text \<open>
  Facts about the loops and procedures of the generator, and values of the example decks,
  as the proofs of the claims need them.
\<close>

lemma same_file_refl [simp]: "same_file e p p"
  by (simp add: same_file_def)


lemma write_file_same [simp]: "write_file e files p c p = Some c"
  by (simp add: write_file_def)



lemma append_text_plain: "plain_text s \<Longrightarrow> append_text s = s"
proof (induction s)
  case Nil
  then show ?case by (simp add: append_text_def)
next
  case (Cons c s)
  then have "c = CHR 0x09 \<or> (32::nat) \<le> of_char c" and p: "plain_text s"
    by (simp_all add: plain_text_def)
  then have "c \<noteq> CHR 0x0A \<and> c \<noteq> CHR 0x0B \<and> escape_ctrl_char c = [c]"
    by (auto simp: escape_ctrl_char_def)
  with Cons.IH[OF p] show ?case by (simp add: append_text_def)
qed

lemma map_append_text_plain: "list_all plain_text pts \<Longrightarrow> map append_text pts = pts"
  by (induction pts) (simp_all add: append_text_plain)

lemma ex_append_text:
  "append_text [] = []" "append_text ''Intro'' = ''Intro''" "append_text ''Outlook'' = ''Outlook''"
  "append_text ''a'' = ''a''" "append_text ''b'' = ''b''" "append_text ''c'' = ''c''"
  "append_text ''Confidential'' = ''Confidential''"
  by (simp_all add: append_text_plain plain_text_def)

lemma fst_try_except [simp]: "fst (try_except r) = None"
  by (simp add: try_except_def)

lemma remove_slides_rev_upt:
  "n \<le> length (slides prs) \<Longrightarrow>
   remove_slides (rev [0..<n]) prs = (None, prs\<lparr>slides := drop n (slides prs)\<rparr>)"
proof (induction n arbitrary: prs)
  case 0
  then show ?case by simp
next
  case (Suc n)
  have len: "n \<le> length (take n (slides prs) @ drop (Suc n) (slides prs))"
    using Suc.prems by simp
  have "remove_slides (rev [0..<Suc n]) prs
        = remove_slides (rev [0..<n]) (prs\<lparr>slides := take n (slides prs) @ drop (Suc n) (slides prs)\<rparr>)"
    using Suc.prems by (simp add: getitem_def delitem_def)
  also have "\<dots> = (None, prs\<lparr>slides := drop (Suc n) (slides prs)\<rparr>)"
    using Suc.IH[of "prs\<lparr>slides := take n (slides prs) @ drop (Suc n) (slides prs)\<rparr>"] len Suc.prems
    by simp
  finally show ?case .
qed

lemma remove_all_slides:
  "remove_slides (rev [0..<length (slides prs)]) prs = (None, prs\<lparr>slides := []\<rparr>)"
  using remove_slides_rev_upt[of "length (slides prs)" prs] by simp

lemma duplicate_slides_length:
  "duplicate_slide_with_content e prs l t c = (r, prs') \<Longrightarrow>
   length (slides prs') = Suc (length (slides prs)) \<and> slide_layouts prs' = slide_layouts prs
   \<and> butlast (slides prs') = slides prs"
  by (auto simp: duplicate_slide_with_content_def add_slide_def Let_def split: prod.splits option.splits)

lemma build_slides_length:
  "build_slides e l t cs prs = (None, prs') \<Longrightarrow>
   length (slides prs') = length (slides prs) + length cs"
proof (induction cs arbitrary: prs)
  case Nil
  then show ?case by simp
next
  case (Cons c cs)
  obtain r p1 where d: "duplicate_slide_with_content e prs l t c = (r, p1)"
    by (cases "duplicate_slide_with_content e prs l t c")
  with Cons.prems have r: "r = None" and b: "build_slides e l t cs p1 = (None, prs')"
    by (auto split: option.splits)
  from duplicate_slides_length[OF d] Cons.IH[OF b] show ?case by simp
qed

lemma basic_slides_length:
  "basic_slides l cs prs = (None, prs') \<Longrightarrow>
   length (slides prs') = length (slides prs) + length cs"
proof (induction cs arbitrary: prs)
  case Nil
  then show ?case by simp
next
  case (Cons c cs)
  then show ?case
    by (auto simp: Let_def add_slide_def split: prod.splits option.splits)
qed

lemma last_index_None: "last_index P xs = None \<longleftrightarrow> (\<forall>x\<in>set xs. \<not> P x)"
  by (induction xs) (auto split: option.splits)

lemma last_index_Some:
  "last_index P xs = Some j \<Longrightarrow>
   j < length xs \<and> P (xs ! j) \<and> (\<forall>k. j < k \<and> k < length xs \<longrightarrow> \<not> P (xs ! k))"
proof (induction xs arbitrary: j)
  case Nil
  then show ?case by simp
next
  case (Cons x xs)
  show ?case
  proof (cases "last_index P xs")
    case None
    with Cons.prems have j: "j = 0" and px: "P x" by (auto split: if_splits)
    from None have "\<forall>y\<in>set xs. \<not> P y" by (simp add: last_index_None)
    then have "\<forall>k. 0 < k \<and> k < length (x # xs) \<longrightarrow> \<not> P ((x # xs) ! k)"
      by (auto simp: nth_Cons split: nat.splits)
    with j px show ?thesis by simp
  next
    case (Some i)
    with Cons.prems have j: "j = Suc i" by simp
    from Cons.IH[OF Some] have i: "i < length xs" "P (xs ! i)"
      and after: "\<forall>k. i < k \<and> k < length xs \<longrightarrow> \<not> P (xs ! k)" by auto
    have "\<forall>k. Suc i < k \<and> k < length (x # xs) \<longrightarrow> \<not> P ((x # xs) ! k)"
      using after by (auto simp: nth_Cons split: nat.splits)
    with j i show ?thesis by simp
  qed
qed

lemma last_index_unique:
  "j < length xs \<Longrightarrow> P (xs ! j) \<Longrightarrow> (\<forall>k. j < k \<and> k < length xs \<longrightarrow> \<not> P (xs ! k)) \<Longrightarrow>
   last_index P xs = Some j"
proof (cases "last_index P xs")
  case None
  assume "j < length xs" "P (xs ! j)"
  with None show ?thesis by (auto simp: last_index_None)
next
  case (Some i)
  assume j: "j < length xs" "P (xs ! j)" "\<forall>k. j < k \<and> k < length xs \<longrightarrow> \<not> P (xs ! k)"
  from last_index_Some[OF Some] have i: "i < length xs" "P (xs ! i)"
    "\<forall>k. i < k \<and> k < length xs \<longrightarrow> \<not> P (xs ! k)" by auto
  have "i = j"
  proof (rule ccontr)
    assume "i \<noteq> j"
    then consider "i < j" | "j < i" by linarith
    then show False using i j by cases auto
  qed
  with Some show ?thesis by simp
qed

lemma scan_placeholders_last:
  "scan_placeholders shs i (t0, c0) =
     ((case last_index is_title_ph shs of Some j \<Rightarrow> Some (i + j) | None \<Rightarrow> t0),
      (case last_index is_content_ph shs of Some j \<Rightarrow> Some (i + j) | None \<Rightarrow> c0))"
proof (induction shs arbitrary: i t0 c0)
  case Nil
  then show ?case by simp
next
  case (Cons sh shs)
  show ?case
    by (cases "placeholder_format sh")
       (auto simp: Cons.IH is_title_ph_def is_content_ph_def split: option.splits)
qed

lemma copy_image_shape_appends:
  "\<exists>extra. copy_image_shape e sh s = (None, s\<lparr>shapes := shapes s @ extra\<rparr>)
     \<and> list_all (\<lambda>x. \<not> is_placeholder x) extra
     \<and> (\<forall>s'. copy_image_shape e sh s' = (None, s'\<lparr>shapes := shapes s' @ extra\<rparr>))"
  by (cases "image_blob sh"; cases "rotation sh")
     (auto simp: copy_image_shape_def try_except_def add_picture_def is_placeholder_def Let_def
           intro: exI[of _ "[]"])

lemma copy_text_or_shape_appends:
  "\<exists>extra. copy_text_or_shape sh s = (None, s\<lparr>shapes := shapes s @ extra\<rparr>)
     \<and> list_all (\<lambda>x. \<not> is_placeholder x) extra
     \<and> (\<forall>s'. copy_text_or_shape sh s' = (None, s'\<lparr>shapes := shapes s' @ extra\<rparr>))"
  by (cases "text_frame sh")
     (auto simp: copy_text_or_shape_def try_except_def add_textbox_def set_text_def
                 copy_text_formatting_def is_placeholder_def Let_def
           intro: exI[of _ "[]"])

lemma copy_shape_to_slide_appends:
  "\<exists>extra. copy_shape_to_slide e sh s = (None, s\<lparr>shapes := shapes s @ extra\<rparr>)
     \<and> list_all (\<lambda>x. \<not> is_placeholder x) extra
     \<and> (\<forall>s'. copy_shape_to_slide e sh s' = (None, s'\<lparr>shapes := shapes s' @ extra\<rparr>))"
proof -
  consider "shape_type sh = PICTURE"
    | "shape_type sh \<noteq> PICTURE" "shape_type sh = TEXT_BOX \<or> shape_type sh = AUTO_SHAPE"
    | "shape_type sh \<noteq> PICTURE" "\<not> (shape_type sh = TEXT_BOX \<or> shape_type sh = AUTO_SHAPE)"
    by blast
  then show ?thesis
  proof cases
    case 1
    from copy_image_shape_appends[of e sh s] obtain extra where
      "copy_image_shape e sh s = (None, s\<lparr>shapes := shapes s @ extra\<rparr>)"
      "list_all (\<lambda>x. \<not> is_placeholder x) extra"
      "\<forall>s'. copy_image_shape e sh s' = (None, s'\<lparr>shapes := shapes s' @ extra\<rparr>)" by blast
    with 1 show ?thesis
      by (intro exI[of _ extra]) (simp add: copy_shape_to_slide_def try_except_def)
  next
    case 2
    from copy_text_or_shape_appends[of sh s] obtain extra where
      "copy_text_or_shape sh s = (None, s\<lparr>shapes := shapes s @ extra\<rparr>)"
      "list_all (\<lambda>x. \<not> is_placeholder x) extra"
      "\<forall>s'. copy_text_or_shape sh s' = (None, s'\<lparr>shapes := shapes s' @ extra\<rparr>)" by blast
    with 2 show ?thesis
      by (intro exI[of _ extra]) (simp add: copy_shape_to_slide_def try_except_def)
  next
    case 3
    then show ?thesis
      by (intro exI[of _ "[]"])
         (simp add: copy_shape_to_slide_def try_except_def copy_generic_shape_def)
  qed
qed

lemma copy_shape_to_slide_copied:
  "copy_shape_to_slide e sh s = (None, s\<lparr>shapes := shapes s @ copied e sh\<rparr>)"
proof -
  from copy_shape_to_slide_appends[of e sh s] obtain extra where
    a: "\<forall>s'. copy_shape_to_slide e sh s' = (None, s'\<lparr>shapes := shapes s' @ extra\<rparr>)" by blast
  then have "copied e sh = extra" by (simp add: copied_def)
  with a show ?thesis by simp
qed

lemma copied_not_placeholder: "list_all (\<lambda>x. \<not> is_placeholder x) (copied e sh)"
proof -
  from copy_shape_to_slide_appends[of e sh "\<lparr>slide_layout = \<lparr>layout_name = [], layout_placeholders = []\<rparr>, shapes = []\<rparr>"]
  obtain extra where
    a: "\<forall>s'. copy_shape_to_slide e sh s' = (None, s'\<lparr>shapes := shapes s' @ extra\<rparr>)"
    and b: "list_all (\<lambda>x. \<not> is_placeholder x) extra" by blast
  from a have "copied e sh = extra" by (simp add: copied_def)
  with b show ?thesis by simp
qed

lemma copy_each_copied:
  "copy_each e shs s = (None, s\<lparr>shapes := shapes s @ concat (map (copied e) shs)\<rparr>)"
proof (induction shs arbitrary: s)
  case Nil
  then show ?case by simp
next
  case (Cons sh shs)
  show ?case by (simp add: copy_shape_to_slide_copied Cons.IH)
qed

lemma copy_template_visual_elements_copied:
  "copy_template_visual_elements e t s =
     (None, s\<lparr>shapes := shapes s
          @ concat (map (copied e) (filter (\<lambda>sh. \<not> is_placeholder sh) (shapes t)))\<rparr>)"
  by (simp add: copy_template_visual_elements_def try_except_def copy_each_copied)

lemma set_text_keeps:
  "placeholder_format (set_text t sh) = placeholder_format sh"
  "(text_frame (set_text t sh) = None) = (text_frame sh = None)"
  "shape_type (set_text t sh) = shape_type sh"
  "image_blob (set_text t sh) = image_blob sh"
  by (auto simp: set_text_def split: option.splits)

lemma set_text_frame_Some:
  "text_frame sh = Some tf \<Longrightarrow> \<exists>tf'. text_frame (set_text t sh) = Some tf'"
  by (simp add: set_text_def)

lemma is_placeholder_set_text [simp]: "is_placeholder (set_text t sh) = is_placeholder sh"
  by (simp add: is_placeholder_def set_text_keeps)

lemma shapes_update_shape [simp]:
  "shapes (update_shape i f s) = (shapes s)[i := f (shapes s ! i)]"
  "slide_layout (update_shape i f s) = slide_layout s"
  by (simp_all add: update_shape_def)

lemma nth_update_at:
  "n < length xs \<Longrightarrow> xs[i := f (xs ! i)] ! n = (if i = n then f (xs ! n) else xs ! n)"
  by (cases "i = n") auto

lemma ph_text_ok_nth:
  "ph_text_ok s \<Longrightarrow> i < length (shapes s) \<Longrightarrow> is_placeholder (shapes s ! i) \<Longrightarrow>
   text_frame (shapes s ! i) \<noteq> None"
  by (simp add: ph_text_ok_def list_all_length)

lemma ph_text_ok_set_text:
  "ph_text_ok s \<Longrightarrow> ph_text_ok (update_shape i (set_text t) s)"
  by (auto simp: ph_text_ok_def list_all_length nth_update_at dest: set_text_frame_Some)

lemma ph_text_ok_new_slide: "ph_text_ok (new_slide_from l)"
  by (simp add: ph_text_ok_def new_slide_from_def list_all_iff clone_placeholder_def)

lemma ph_text_ok_append:
  "ph_text_ok s \<Longrightarrow> list_all (\<lambda>x. \<not> is_placeholder x) extra \<Longrightarrow>
   ph_text_ok (s\<lparr>shapes := shapes s @ extra\<rparr>)"
  by (auto simp: ph_text_ok_def list_all_iff)

lemma content_index_is_placeholder:
  "last_index is_content_ph shs = Some ci \<Longrightarrow> ci < length shs \<and> is_placeholder (shs ! ci)"
  by (auto dest!: last_index_Some simp: is_content_ph_def is_placeholder_def split: option.splits)

lemma populate_slide_content_ok:
  assumes "ph_text_ok s"
  shows "fst (populate_slide_content s c) = None"
proof -
  let ?sel = "scan_placeholders (shapes s) 0 (None, None)"
  let ?t = "case title c of Some t \<Rightarrow> t | None \<Rightarrow> []"
  let ?s1 = "case fst ?sel of
               Some ti \<Rightarrow> if ?t \<noteq> [] then update_shape ti (set_text ?t) s else s
             | None \<Rightarrow> s"
  have ok1: "ph_text_ok ?s1"
    using assms by (auto split: option.splits intro: ph_text_ok_set_text)
  have len: "length (shapes ?s1) = length (shapes s)"
    by (auto split: option.splits)
  have ph: "\<And>i. i < length (shapes s) \<Longrightarrow> is_placeholder (shapes ?s1 ! i) = is_placeholder (shapes s ! i)"
    by (auto split: option.splits simp: nth_update_at)
  show ?thesis
  proof (cases "snd ?sel")
    case None
    then show ?thesis by (simp add: populate_slide_content_def Let_def)
  next
    case (Some ci)
    then have "last_index is_content_ph (shapes s) = Some ci"
      by (auto simp: scan_placeholders_last split: option.splits)
    from content_index_is_placeholder[OF this]
    have "ci < length (shapes s)" "is_placeholder (shapes s ! ci)" by auto
    with ok1 len ph have "text_frame (shapes ?s1 ! ci) \<noteq> None"
      using ph_text_ok_nth[of ?s1 ci] by simp
    then obtain tf where "text_frame (shapes ?s1 ! ci) = Some tf" by blast
    with Some show ?thesis by (simp add: populate_slide_content_def Let_def)
  qed
qed

lemma populate_slide_content_layout:
  "slide_layout (snd (populate_slide_content s c)) = slide_layout s"
  by (auto simp: populate_slide_content_def Let_def split: option.splits)

lemma populate_slide_content_length:
  "length (shapes (snd (populate_slide_content s c))) = length (shapes s)"
  by (auto simp: populate_slide_content_def Let_def split: option.splits)

lemma duplicate_slide_with_content_ok:
  "fst (duplicate_slide_with_content e prs l t c) = None"
proof -
  have a: "ph_text_ok (snd (case t of Some x \<Rightarrow> copy_template_visual_elements e x (new_slide_from l)
                         | None \<Rightarrow> (None, new_slide_from l)))"
    by (cases t)
       (auto simp: copy_template_visual_elements_copied ph_text_ok_new_slide
             intro!: ph_text_ok_append simp: list_all_iff dest: copied_not_placeholder[THEN iffD1[OF list_all_iff], rule_format])
  show ?thesis
    using populate_slide_content_ok[OF a, of c]
    by (cases t)
       (auto simp: duplicate_slide_with_content_def add_slide_def Let_def
                   copy_template_visual_elements_copied split: prod.splits)
qed

lemma set_content_ok:
  "\<forall>i\<in>set js. i < length (shapes s) \<and> is_placeholder (shapes s ! i) \<Longrightarrow> ph_text_ok s \<Longrightarrow>
   fst (set_content js s c) = None"
proof (induction js)
  case Nil
  then show ?case by simp
next
  case (Cons i js)
  from Cons.prems have i: "i < length (shapes s)" "is_placeholder (shapes s ! i)" by auto
  then obtain pf where pf: "placeholder_format (shapes s ! i) = Some pf"
    by (auto simp: is_placeholder_def)
  from ph_text_ok_nth[OF Cons.prems(2) i] obtain tf where tf: "text_frame (shapes s ! i) = Some tf"
    by blast
  show ?case using pf tf Cons by (simp add: Let_def)
qed

lemma set_placeholders:
  "set (placeholders s) = {i. i < length (shapes s) \<and> is_placeholder (shapes s ! i)}"
  by (auto simp: placeholders_def)

lemma basic_slide_content_ok:
  assumes "ph_text_ok s"
  shows "fst (basic_slide_content s c) = None"
proof -
  let ?s1 = "case shapes_title s of
               Some ti \<Rightarrow> update_shape ti (set_text (case title c of Some t \<Rightarrow> t | None \<Rightarrow> [])) s
             | None \<Rightarrow> s"
  have "ph_text_ok ?s1" using assms by (auto split: option.splits intro: ph_text_ok_set_text)
  then have "fst (set_content (placeholders ?s1) ?s1 c) = None"
    by (intro set_content_ok) (auto simp: set_placeholders)
  then show ?thesis by (simp add: basic_slide_content_def Let_def)
qed

lemma basic_slides_ok: "fst (basic_slides l cs prs) = None"
proof (induction cs arbitrary: prs)
  case Nil
  then show ?case by simp
next
  case (Cons c cs)
  have "fst (basic_slide_content (new_slide_from l) c) = None"
    by (rule basic_slide_content_ok[OF ph_text_ok_new_slide])
  then show ?case
    by (auto simp: Let_def add_slide_def Cons.IH split: prod.splits option.splits)
qed

lemma build_slides_ok: "fst (build_slides e l t cs prs) = None"
proof (induction cs arbitrary: prs)
  case Nil
  then show ?case by simp
next
  case (Cons c cs)
  have "fst (duplicate_slide_with_content e prs l t c) = None"
    by (rule duplicate_slide_with_content_ok)
  then show ?case
    by (auto simp: Cons.IH split: prod.splits option.splits)
qed

lemma basic_slides_None: "basic_slides l cs prs = (None, snd (basic_slides l cs prs))"
  using basic_slides_ok[of l cs prs] by (simp add: prod_eq_iff)

lemma build_slides_None: "build_slides e l t cs prs = (None, snd (build_slides e l t cs prs))"
  using build_slides_ok[of e l t cs prs] by (simp add: prod_eq_iff)

lemma save_cases:
  "save e files prs out =
     (if writable e out then (None, write_file e files out (Deck prs)) else (Some PermissionError, files))"
  by (simp add: save_def)

lemma create_basic_presentation_no_layout:
  "basic_layout (Presentation_default e) = Inl err \<Longrightarrow>
   create_basic_presentation e files cs out = (Inl err, files)"
  by (simp add: create_basic_presentation_def)

lemma create_basic_presentation_layout:
  "basic_layout (Presentation_default e) = Inr l \<Longrightarrow>
   create_basic_presentation e files cs out =
     (if writable e out
      then (Inr out, write_file e files out (Deck (snd (basic_slides l cs (Presentation_default e)))))
      else (Inl PermissionError, files))"
proof -
  assume l: "basic_layout (Presentation_default e) = Inr l"
  obtain prs' where b: "basic_slides l cs (Presentation_default e) = (None, prs')"
    using basic_slides_None[of l cs "Presentation_default e"] by blast
  show ?thesis by (simp add: create_basic_presentation_def save_cases l b)
qed

lemma template_attempt_not_open:
  "Presentation_open files tp = Inl err \<Longrightarrow>
   template_attempt e files cs out tp = (Inl err, files)"
  by (simp add: template_attempt_def)

lemma template_attempt_no_layout:
  "Presentation_open files tp = Inr d \<Longrightarrow>
   template_slide_layout d (find_best_content_slide d) = Inl err \<Longrightarrow>
   template_attempt e files cs out tp = (Inl err, files)"
  by (simp add: template_attempt_def)

lemma template_attempt_layout:
  "Presentation_open files tp = Inr d \<Longrightarrow>
   template_slide_layout d (find_best_content_slide d) = Inr l \<Longrightarrow>
   template_attempt e files cs out tp =
     (if writable e out
      then (Inr out, write_file e files out
                      (Deck (snd (build_slides e l (find_best_content_slide d) cs
                                    (d\<lparr>slides := []\<rparr>)))))
      else (Inl PermissionError, files))"
proof -
  assume d: "Presentation_open files tp = Inr d"
    and l: "template_slide_layout d (find_best_content_slide d) = Inr l"
  obtain prs2 where
    b: "build_slides e l (find_best_content_slide d) cs (d\<lparr>slides := []\<rparr>) = (None, prs2)"
    using build_slides_None[of e l "find_best_content_slide d" cs "d\<lparr>slides := []\<rparr>"] by blast
  show ?thesis by (simp add: template_attempt_def remove_all_slides save_cases d l b)
qed

lemma basic_slides_count:
  "length (slides (snd (basic_slides l cs prs))) = length (slides prs) + length cs"
  using basic_slides_length[of l cs prs "snd (basic_slides l cs prs)"] basic_slides_None[of l cs prs]
  by simp

lemma build_slides_count:
  "length (slides (snd (build_slides e l t cs prs))) = length (slides prs) + length cs"
  using build_slides_length[of e l t cs prs "snd (build_slides e l t cs prs)"]
    build_slides_None[of e l t cs prs]
  by simp

lemma create_basic_presentation_count:
  assumes "create_basic_presentation e files cs out = (Inr p, files')"
  shows "p = out \<and> saved_slide_count files' out = Some (length cs)"
proof (cases "basic_layout (Presentation_default e)")
  case (Inl err)
  with assms show ?thesis by (simp add: create_basic_presentation_no_layout)
next
  case (Inr l)
  with assms show ?thesis
    by (auto simp: create_basic_presentation_layout saved_slide_count_def basic_slides_count
                   Presentation_default_def split: if_splits)
qed

lemma template_attempt_count:
  assumes "template_attempt e files cs out tp = (Inr p, files')"
  shows "p = out \<and> saved_slide_count files' out = Some (length cs)"
proof (cases "Presentation_open files tp")
  case (Inl err)
  with assms show ?thesis by (simp add: template_attempt_not_open)
next
  case (Inr d)
  show ?thesis
  proof (cases "template_slide_layout d (find_best_content_slide d)")
    case (Inl err)
    with assms Inr show ?thesis by (simp add: template_attempt_no_layout)
  next
    case l: (Inr l)
    with assms Inr show ?thesis
      by (auto simp: template_attempt_layout saved_slide_count_def build_slides_count
               split: if_splits)
  qed
qed

lemma template_attempt_failure_keeps_files:
  assumes "template_attempt e files cs out tp = (Inl err, files')"
  shows "files' = files"
proof (cases "Presentation_open files tp")
  case (Inl err)
  with assms show ?thesis by (simp add: template_attempt_not_open)
next
  case (Inr d)
  show ?thesis
  proof (cases "template_slide_layout d (find_best_content_slide d)")
    case (Inl err)
    with assms Inr show ?thesis by (simp add: template_attempt_no_layout)
  next
    case l: (Inr l)
    with assms Inr show ?thesis
      by (auto simp: template_attempt_layout split: if_splits)
  qed
qed

lemma basic_layout_exists:
  "slide_layouts prs \<noteq> [] \<Longrightarrow> \<exists>l. basic_layout prs = Inr l"
  by (cases "slide_layouts prs") (auto simp: basic_layout_def getitem_def)

lemma create_basic_presentation_total:
  assumes "writable e out" "default_layouts e \<noteq> []"
  shows "\<exists>deck. create_basic_presentation e files cs out = (Inr out, write_file e files out (Deck deck))"
proof -
  from assms(2) obtain l where "basic_layout (Presentation_default e) = Inr l"
    using basic_layout_exists[of "Presentation_default e"] by (auto simp: Presentation_default_def)
  with assms(1) show ?thesis
    by (intro exI[of _ "snd (basic_slides l cs (Presentation_default e))"])
       (simp add: create_basic_presentation_layout)
qed

lemmas ex_shape_defs = ex_title_ph_def ex_body_ph_def ex_object_ph_def ex_content_ph_def
  ex_center_title_ph_def ex_subtitle_ph_def ex_picture_def
  ex_linked_picture_def ex_textbox_def new_paragraph_def

lemmas ex_defs = ex_layout_title_def ex_layout_content_def ex_layout_blank_def
  ex_slide_title_def ex_slide_content_def ex_template_def ex_bare_def

lemma ex_scores:
  "slide_score ex_slide_title = 2" "slide_score ex_slide_content = 10"
  by (simp_all add: slide_score_def ex_slide_title_def ex_slide_content_def ex_shape_defs)

lemma ex_best: "find_best_content_slide ex_template = Some ex_slide_content"
  by (simp add: find_best_content_slide_def ex_template_def ex_scores)

lemma ex_best_bare: "find_best_content_slide ex_bare = None"
  by (simp add: find_best_content_slide_def ex_bare_def)

lemma ex_open:
  "Presentation_open ex_files ''template.pptx'' = Inr ex_template"
  "Presentation_open ex_files ''bare.pptx'' = Inr ex_bare"
  "Presentation_open ex_files ''broken.pptx'' = Inl PackageNotFoundError"
  by (simp_all add: Presentation_open_def ex_files_def on_disk_def ex_env_def)

lemma create_ppt_from_template_guarded:
  "tp \<noteq> [] \<Longrightarrow> files tp \<noteq> None \<Longrightarrow>
   create_ppt_from_template e files cs out (Some tp) =
     (case template_attempt e files cs out tp of
        (Inl err, files') \<Rightarrow> create_basic_presentation e files' cs out
      | (Inr p, files') \<Rightarrow> (Inr p, files'))"
  by (auto simp: create_ppt_from_template_def)

lemma ex_writable: "writable ex_env ''out.pptx''" "\<not> writable ex_env ''/readonly/out.pptx''"
  by (simp_all add: ex_env_def)

lemma create_ppt_from_template_count:
  assumes "create_ppt_from_template e files cs out tpo = (Inr p, files')"
  shows "p = out \<and> saved_slide_count files' out = Some (length cs)"
proof (cases "tpo = None \<or> tpo = Some [] \<or> files (the tpo) = None")
  case True
  then have "create_ppt_from_template e files cs out tpo = create_basic_presentation e files cs out"
    by (auto simp: create_ppt_from_template_def split: option.splits)
  with assms show ?thesis by (simp add: create_basic_presentation_count)
next
  case False
  then obtain tp where tp: "tpo = Some tp" "tp \<noteq> []" "files tp \<noteq> None"
    by (cases tpo) auto
  obtain r f1 where a: "template_attempt e files cs out tp = (r, f1)"
    by (cases "template_attempt e files cs out tp")
  show ?thesis
  proof (cases r)
    case (Inl err)
    with a have "f1 = files" by (simp add: template_attempt_failure_keeps_files)
    with a Inl tp(1) assms have "create_basic_presentation e files cs out = (Inr p, files')"
      by (simp add: create_ppt_from_template_guarded[where tp=tp and files=files, OF tp(2,3)])
    then show ?thesis by (rule create_basic_presentation_count)
  next
    case (Inr q)
    with a tp(1) assms have "template_attempt e files cs out tp = (Inr p, files')"
      by (simp add: create_ppt_from_template_guarded[where tp=tp and files=files, OF tp(2,3)])
    then show ?thesis by (rule template_attempt_count)
  qed
qed

lemma create_ppt_from_template_failed_attempt:
  assumes "tp \<noteq> []" "files tp \<noteq> None" "fst (template_attempt e files cs out tp) = Inl err"
  shows "create_ppt_from_template e files cs out (Some tp) = create_basic_presentation e files cs out"
proof -
  obtain f1 where a: "template_attempt e files cs out tp = (Inl err, f1)"
    using assms(3) by (cases "template_attempt e files cs out tp") auto
  then have "f1 = files" by (rule template_attempt_failure_keeps_files)
  with a show ?thesis by (simp add: create_ppt_from_template_guarded[where tp=tp and files=files, OF assms(1,2)])
qed

lemma create_ppt_from_template_total:
  assumes "writable e out" "default_layouts e \<noteq> []"
  shows "fst (create_ppt_from_template e files cs out tpo) = Inr out"
proof -
  from create_basic_presentation_total[OF assms, of files cs]
  have b: "fst (create_basic_presentation e files cs out) = Inr out" by auto
  show ?thesis
  proof (cases "tpo = None \<or> tpo = Some [] \<or> files (the tpo) = None")
    case True
    then have "create_ppt_from_template e files cs out tpo = create_basic_presentation e files cs out"
      by (auto simp: create_ppt_from_template_def split: option.splits)
    with b show ?thesis by simp
  next
    case False
    then obtain tp where tp: "tpo = Some tp" "tp \<noteq> []" "files tp \<noteq> None"
    by (cases tpo) auto
    obtain r f1 where a: "template_attempt e files cs out tp = (r, f1)"
      by (cases "template_attempt e files cs out tp")
    show ?thesis
    proof (cases r)
      case (Inl err)
      with a have "fst (template_attempt e files cs out tp) = Inl err" by simp
      from create_ppt_from_template_failed_attempt[OF tp(2,3) this] b tp show ?thesis by simp
    next
      case (Inr q)
      with a have "q = out" using template_attempt_count[of e files cs out tp q f1] by simp
      with a Inr tp(1) show ?thesis by (simp add: create_ppt_from_template_guarded[where tp=tp and files=files, OF tp(2,3)])
    qed
  qed
qed

lemma ex_attempt:
  "fst (template_attempt ex_env ex_files ex_items ''out.pptx'' ''template.pptx'') = Inr ''out.pptx''"
proof -
  have "template_slide_layout ex_template (find_best_content_slide ex_template)
        = Inr ex_layout_content"
    by (simp add: ex_best template_slide_layout_def ex_slide_content_def)
  from template_attempt_layout[OF ex_open(1) this] show ?thesis by (simp add: ex_writable)
qed

lemma ex_basic_layout: "basic_layout (Presentation_default ex_env) = Inr ex_layout_object"
  by (simp add: basic_layout_def getitem_def Presentation_default_def ex_env_def)

lemma ex_basic:
  "fst (create_basic_presentation ex_env ex_files ex_items ''out.pptx'') = Inr ''out.pptx''"
  by (simp add: create_basic_presentation_layout[OF ex_basic_layout] ex_writable)

lemma replicated_ph_text_ok:
  "ph_text_ok (snd (case t of Some x \<Rightarrow> copy_template_visual_elements e x (new_slide_from l)
                    | None \<Rightarrow> (None, new_slide_from l)))"
proof (cases t)
  case None
  then show ?thesis by (simp add: ph_text_ok_new_slide)
next
  case (Some x)
  have "list_all (\<lambda>x. \<not> is_placeholder x)
          (concat (map (copied e) (filter (\<lambda>sh. \<not> is_placeholder sh) (shapes x))))"
    using copied_not_placeholder[of e] by (auto simp: list_all_iff)
  with Some show ?thesis
    by (simp add: copy_template_visual_elements_copied ph_text_ok_append ph_text_ok_new_slide)
qed

lemma duplicate_slide_with_content_eq:
  "duplicate_slide_with_content e prs l t c =
     (None, prs\<lparr>slides := slides prs @ [generated_slide e l t c]\<rparr>)"
proof -
  let ?s1 = "snd (case t of Some x \<Rightarrow> copy_template_visual_elements e x (new_slide_from l)
                  | None \<Rightarrow> (None, new_slide_from l))"
  have "fst (populate_slide_content ?s1 c) = None"
    by (rule populate_slide_content_ok[OF replicated_ph_text_ok])
  then obtain s2 where p: "populate_slide_content ?s1 c = (None, s2)"
    by (cases "populate_slide_content ?s1 c") auto
  show ?thesis
  proof (cases t)
    case None
    with p show ?thesis
      by (simp add: duplicate_slide_with_content_def add_slide_def generated_slide_def)
  next
    case (Some x)
    with p show ?thesis
      by (simp add: duplicate_slide_with_content_def add_slide_def generated_slide_def
            copy_template_visual_elements_copied)
  qed
qed

lemma build_slides_eq:
  "build_slides e l t cs prs =
     (None, prs\<lparr>slides := slides prs @ map (generated_slide e l t) cs\<rparr>)"
  by (induction cs arbitrary: prs) (simp_all add: duplicate_slide_with_content_eq)

lemma basic_slides_eq:
  "basic_slides l cs prs = (None, prs\<lparr>slides := slides prs @ map (basic_slide l) cs\<rparr>)"
proof (induction cs arbitrary: prs)
  case Nil
  then show ?case by simp
next
  case (Cons c cs)
  have "fst (basic_slide_content (new_slide_from l) c) = None"
    by (rule basic_slide_content_ok[OF ph_text_ok_new_slide])
  then obtain s1 where "basic_slide_content (new_slide_from l) c = (None, s1)"
    by (cases "basic_slide_content (new_slide_from l) c") auto
  then show ?case by (simp add: Cons.IH add_slide_def basic_slide_def)
qed

lemma generated_slide_layout: "slide_layout (generated_slide e l t c) = l"
  by (cases t)
     (simp_all add: generated_slide_def populate_slide_content_layout
        copy_template_visual_elements_copied new_slide_from_def)

lemma build_slides_layouts:
  "list_all (\<lambda>s. slide_layout s = l) (slides prs) \<Longrightarrow>
   list_all (\<lambda>s. slide_layout s = l) (slides (snd (build_slides e l t cs prs)))"
  by (auto simp: build_slides_eq list_all_iff generated_slide_layout)

lemma ex_files_at:
  "ex_files ''template.pptx'' = Some (Deck ex_template)"
  "ex_files ''bare.pptx'' = Some (Deck ex_bare)"
  "ex_files ''broken.pptx'' = Some Corrupt"
  by (simp_all add: ex_files_def on_disk_def ex_env_def)

lemma create_ppt_from_template_raises:
  assumes "fst (create_ppt_from_template e files cs out tpo) = Inl err"
  shows "fst (create_basic_presentation e files cs out) = Inl err"
proof (cases "tpo = None \<or> tpo = Some [] \<or> files (the tpo) = None")
  case True
  then have "create_ppt_from_template e files cs out tpo = create_basic_presentation e files cs out"
    by (auto simp: create_ppt_from_template_def split: option.splits)
  with assms show ?thesis by simp
next
  case False
  then obtain tp where tp: "tpo = Some tp" "tp \<noteq> []" "files tp \<noteq> None"
    by (cases tpo) auto
  obtain r f1 where a: "template_attempt e files cs out tp = (r, f1)"
    by (cases "template_attempt e files cs out tp")
  show ?thesis
  proof (cases r)
    case (Inl err')
    with a have "fst (template_attempt e files cs out tp) = Inl err'" by simp
    from create_ppt_from_template_failed_attempt[where tp=tp and files=files, OF tp(2,3) this]
      assms tp(1)
    show ?thesis by simp
  next
    case (Inr q)
    with a tp(1) assms show ?thesis
      by (simp add: create_ppt_from_template_guarded[where tp=tp and files=files, OF tp(2,3)])
  qed
qed

lemma score_shapes_counts:
  "score_shapes shs (sc, ht, hc) =
     (sc + 2 * int (length (filter is_title_ph shs)) + 3 * int (length (filter is_content_ph shs)),
      ht \<or> filter is_title_ph shs \<noteq> [], hc \<or> filter is_content_ph shs \<noteq> [])"
proof (induction shs arbitrary: sc ht hc)
  case Nil
  then show ?case by simp
next
  case (Cons sh shs)
  show ?case
    by (cases "placeholder_format sh")
       (auto simp: Cons.IH is_title_ph_def is_content_ph_def)
qed

lemma slide_score_counts:
  "slide_score s =
     2 * int (n_title s) + 3 * int (n_content s)
     + (if 0 < n_title s \<and> 0 < n_content s then 5 else 0)"
  by (simp add: slide_score_def score_shapes_counts n_title_def n_content_def)

lemma slide_score_nonneg: "0 \<le> slide_score s"
  by (simp add: slide_score_counts)

lemma slide_score_zero: "slide_score s = 0 \<longleftrightarrow> n_title s = 0 \<and> n_content s = 0"
  by (auto simp: slide_score_counts)

lemma best_loop_result:
  "(best_loop ss b sc = b \<and> (\<forall>s\<in>set ss. slide_score s \<le> sc))
   \<or> (\<exists>i<length ss. best_loop ss b sc = Some (ss ! i) \<and> sc < slide_score (ss ! i)
        \<and> (\<forall>j<length ss. slide_score (ss ! j) \<le> slide_score (ss ! i))
        \<and> (\<forall>j<i. slide_score (ss ! j) < slide_score (ss ! i)))"
proof (induction ss arbitrary: b sc)
  case Nil
  then show ?case by simp
next
  case (Cons s ss)
  show ?case
  proof (cases "sc < slide_score s")
    case True
    from Cons.IH[of "Some s" "slide_score s"] consider
      (keep) "best_loop ss (Some s) (slide_score s) = Some s" "\<forall>x\<in>set ss. slide_score x \<le> slide_score s"
      | (later) i where "i < length ss" "best_loop ss (Some s) (slide_score s) = Some (ss ! i)"
          "slide_score s < slide_score (ss ! i)"
          "\<forall>j<length ss. slide_score (ss ! j) \<le> slide_score (ss ! i)"
          "\<forall>j<i. slide_score (ss ! j) < slide_score (ss ! i)"
      by blast
    then show ?thesis
    proof cases
      case keep
      have "\<forall>j<length (s # ss). slide_score ((s # ss) ! j) \<le> slide_score s"
        using keep(2) by (auto simp: nth_Cons split: nat.splits)
      with True keep(1) show ?thesis
        by (intro disjI2 exI[of _ 0]) simp
    next
      case later
      have a: "\<forall>j<length (s # ss). slide_score ((s # ss) ! j) \<le> slide_score (ss ! i)"
        using later(3,4) by (auto simp: nth_Cons split: nat.splits)
      have b: "\<forall>j<Suc i. slide_score ((s # ss) ! j) < slide_score (ss ! i)"
        using later(3,5) by (auto simp: nth_Cons split: nat.splits)
      from True later(1,2,3) a b show ?thesis
        by (intro disjI2 exI[of _ "Suc i"]) simp
    qed
  next
    case False
    from Cons.IH[of b sc] consider
      (keep) "best_loop ss b sc = b" "\<forall>x\<in>set ss. slide_score x \<le> sc"
      | (later) i where "i < length ss" "best_loop ss b sc = Some (ss ! i)"
          "sc < slide_score (ss ! i)"
          "\<forall>j<length ss. slide_score (ss ! j) \<le> slide_score (ss ! i)"
          "\<forall>j<i. slide_score (ss ! j) < slide_score (ss ! i)"
      by blast
    then show ?thesis
    proof cases
      case keep
      with False show ?thesis by (intro disjI1) simp
    next
      case later
      have a: "\<forall>j<length (s # ss). slide_score ((s # ss) ! j) \<le> slide_score (ss ! i)"
        using later(3,4) False by (auto simp: nth_Cons split: nat.splits)
      have b: "\<forall>j<Suc i. slide_score ((s # ss) ! j) < slide_score (ss ! i)"
        using later(3,5) False by (auto simp: nth_Cons split: nat.splits)
      from False later(1,2,3) a b show ?thesis
        by (intro disjI2 exI[of _ "Suc i"]) simp
    qed
  qed
qed

lemma find_best_content_slide_None:
  "find_best_content_slide prs = None \<longleftrightarrow> (\<forall>s\<in>set (slides prs). slide_score s = 0)"
proof -
  from best_loop_result[of "slides prs" None 0]
  show ?thesis
    unfolding find_best_content_slide_def
    using slide_score_nonneg
    by (auto simp: order.antisym dest!: nth_mem intro: order.antisym)
qed

lemma find_best_content_slide_Some:
  assumes "find_best_content_slide prs = Some b"
  shows "\<exists>i<length (slides prs). b = slides prs ! i \<and> 0 < slide_score b
        \<and> (\<forall>j<length (slides prs). slide_score (slides prs ! j) \<le> slide_score b)
        \<and> (\<forall>j<i. slide_score (slides prs ! j) < slide_score b)"
  using best_loop_result[of "slides prs" None 0] assms
  unfolding find_best_content_slide_def by auto

lemma map_update_nth: "(map g xs)[i := g (xs ! i)] = map g xs"
proof (cases "i < length xs")
  case True
  then show ?thesis by (simp add: list_update_same_conv)
next
  case False
  then have "length (map g xs) \<le> i" by simp
  then show ?thesis by (rule list_update_beyond)
qed

lemma update_shape_formats:
  assumes "\<And>x. placeholder_format (f x) = placeholder_format x"
  shows "map placeholder_format (shapes (update_shape i f s)) = map placeholder_format (shapes s)"
  by (simp add: map_update assms map_update_nth)

lemma populate_slide_content_formats:
  "map placeholder_format (shapes (snd (populate_slide_content s c)))
   = map placeholder_format (shapes s)"
proof -
  let ?sel = "scan_placeholders (shapes s) 0 (None, None)"
  let ?t = "case title c of Some t \<Rightarrow> t | None \<Rightarrow> []"
  let ?s1 = "case fst ?sel of
               Some ti \<Rightarrow> if ?t \<noteq> [] then update_shape ti (set_text ?t) s else s
             | None \<Rightarrow> s"
  have s1: "map placeholder_format (shapes ?s1) = map placeholder_format (shapes s)"
  proof (cases "fst ?sel")
    case None
    then show ?thesis by simp
  next
    case (Some ti)
    have "map placeholder_format (shapes (update_shape ti (set_text ?t) s))
          = map placeholder_format (shapes s)"
      by (rule update_shape_formats) (simp add: set_text_keeps)
    with Some show ?thesis by simp
  qed
  have upd: "\<And>ci v. map placeholder_format
                (shapes (update_shape ci (\<lambda>sh. sh\<lparr>text_frame := v\<rparr>) ?s1))
              = map placeholder_format (shapes ?s1)"
    by (rule update_shape_formats) simp
  have "map placeholder_format (shapes (snd (populate_slide_content s c)))
        = map placeholder_format (shapes ?s1)"
  proof (cases "snd ?sel")
    case None
    then show ?thesis by (simp add: populate_slide_content_def Let_def)
  next
    case (Some ci)
    show ?thesis
    proof (cases "text_frame (shapes ?s1 ! ci)")
      case None
      with Some show ?thesis by (simp add: populate_slide_content_def Let_def)
    next
      case tf: (Some tf)
      show ?thesis
        using Some tf upd[of ci]
        by (cases "points c"; simp add: populate_slide_content_def Let_def)
    qed
  qed
  with s1 show ?thesis by simp
qed

lemma list_all_is_placeholder_formats:
  "list_all is_placeholder xs \<longleftrightarrow> list_all (\<lambda>f. f \<noteq> None) (map placeholder_format xs)"
  by (simp add: list_all_iff is_placeholder_def)

lemma new_slide_from_placeholders: "list_all is_placeholder (shapes (new_slide_from l))"
  by (simp add: new_slide_from_def list_all_iff is_placeholder_def clone_placeholder_def)

lemma generated_slide_no_exemplar:
  "list_all is_placeholder (shapes (generated_slide e l None c))"
  using new_slide_from_placeholders[of l]
  by (simp add: generated_slide_def list_all_is_placeholder_formats populate_slide_content_formats)

lemma slide_score_zero_shapes:
  "slide_score s = 0 \<longleftrightarrow> list_all (\<lambda>sh. \<not> is_title_ph sh \<and> \<not> is_content_ph sh) (shapes s)"
  by (auto simp: slide_score_zero n_title_def n_content_def list_all_iff filter_empty_conv)

lemma ex_decor_score: "slide_score ex_slide_decor = 0"
  by (simp add: slide_score_def ex_slide_decor_def ex_shape_defs)

lemma ex_decor_best: "find_best_content_slide ex_decor = None"
  by (simp add: find_best_content_slide_def ex_decor_def ex_decor_score)

lemma ex_counts:
  "n_title ex_slide_title = 1" "n_content ex_slide_title = 0"
  "n_title ex_slide_content = 1" "n_content ex_slide_content = 1"
  "n_title ex_slide_two_content = 1" "n_content ex_slide_two_content = 2"
  "n_title ex_slide_decor = 0" "n_content ex_slide_decor = 0"
  by (simp_all add: n_title_def n_content_def is_title_ph_def is_content_ph_def
        ex_slide_title_def ex_slide_content_def ex_slide_two_content_def ex_slide_decor_def
        ex_shape_defs)

lemma no_text_set_text [simp]: "no_text (set_text t sh) = no_text sh"
  by (simp add: no_text_def set_text_def split: option.splits)

lemma no_text_text_frame [simp]: "no_text (sh\<lparr>text_frame := v\<rparr>) = no_text sh"
  by (simp add: no_text_def)

lemma update_shape_no_text:
  assumes "\<And>x. no_text (f x) = no_text x"
  shows "map no_text (shapes (update_shape i f s)) = map no_text (shapes s)"
  by (simp add: map_update assms map_update_nth)

lemma populate_slide_content_no_text:
  "map no_text (shapes (snd (populate_slide_content s c))) = map no_text (shapes s)"
proof -
  let ?sel = "scan_placeholders (shapes s) 0 (None, None)"
  let ?t = "case title c of Some t \<Rightarrow> t | None \<Rightarrow> []"
  let ?s1 = "case fst ?sel of
               Some ti \<Rightarrow> if ?t \<noteq> [] then update_shape ti (set_text ?t) s else s
             | None \<Rightarrow> s"
  have s1: "map no_text (shapes ?s1) = map no_text (shapes s)"
  proof (cases "fst ?sel")
    case None
    then show ?thesis by simp
  next
    case (Some ti)
    have "map no_text (shapes (update_shape ti (set_text ?t) s)) = map no_text (shapes s)"
      by (rule update_shape_no_text) simp
    with Some show ?thesis by simp
  qed
  have upd: "\<And>ci v. map no_text (shapes (update_shape ci (\<lambda>sh. sh\<lparr>text_frame := v\<rparr>) ?s1))
              = map no_text (shapes ?s1)"
    by (rule update_shape_no_text) simp
  have "map no_text (shapes (snd (populate_slide_content s c))) = map no_text (shapes ?s1)"
  proof (cases "snd ?sel")
    case None
    then show ?thesis by (simp add: populate_slide_content_def Let_def)
  next
    case (Some ci)
    show ?thesis
    proof (cases "text_frame (shapes ?s1 ! ci)")
      case None
      with Some show ?thesis by (simp add: populate_slide_content_def Let_def)
    next
      case tf: (Some tf)
      show ?thesis
        using Some tf upd[of ci]
        by (cases "points c"; simp add: populate_slide_content_def Let_def)
    qed
  qed
  with s1 show ?thesis by simp
qed

lemma generated_slide_no_text:
  "map no_text (shapes (generated_slide e l t c))
   = map no_text (shapes (new_slide_from l)
       @ (case t of
            Some x \<Rightarrow> concat (map (copied e) (filter (\<lambda>sh. \<not> is_placeholder sh) (shapes x)))
          | None \<Rightarrow> []))"
  by (cases t)
     (simp_all add: generated_slide_def populate_slide_content_no_text
        copy_template_visual_elements_copied)

lemma picture_like_no_text: "picture_like src (no_text q) = picture_like src q"
  by (cases "rotation src") (simp_all add: picture_like_def no_text_def)

lemma list_ex_no_text:
  "list_ex (picture_like src) (map no_text xs) = list_ex (picture_like src) xs"
  by (simp add: list_ex_iff picture_like_no_text)

lemma picture_failure_skipped:
  "shape_type sh = PICTURE \<Longrightarrow> image_blob sh = None \<or> (\<exists>d. image_blob sh = Some d \<and> \<not> image_ok e d) \<Longrightarrow>
   copy_shape_to_slide e sh s = (None, s)"
  by (auto simp: copy_shape_to_slide_def copy_image_shape_def try_except_def)

lemma copied_picture_failure:
  "shape_type sh = PICTURE \<Longrightarrow> image_blob sh = None \<or> (\<exists>d. image_blob sh = Some d \<and> \<not> image_ok e d) \<Longrightarrow>
   copied e sh = []"
  by (simp add: copied_def picture_failure_skipped)

lemma copied_picture:
  "shape_type sh = PICTURE \<Longrightarrow> image_blob sh = Some d \<Longrightarrow> image_ok e d \<Longrightarrow>
   copied e sh =
     [(add_picture d (left sh) (top_pos sh) (width sh) (height sh))
        \<lparr>rotation := (case rotation sh of Some r \<Rightarrow> Some r | None \<Rightarrow> Some 0)\<rparr>]"
  by (cases "rotation sh")
     (simp_all add: copied_def copy_shape_to_slide_def copy_image_shape_def try_except_def
        add_picture_def)

lemma copied_picture_like:
  assumes "shape_type sh = PICTURE" "image_blob sh = Some d" "image_ok e d"
  shows "list_ex (picture_like sh) (copied e sh)"
  using assms
  by (cases "rotation sh") (simp_all add: copied_picture picture_like_def add_picture_def)

lemma generated_slide_picture:
  assumes "pic \<in> set (shapes t)" "placeholder_format pic = None" "shape_type pic = PICTURE"
    "image_blob pic = Some d" "image_ok e d"
  shows "list_ex (picture_like pic) (shapes (generated_slide e l (Some t) c))"
proof -
  from copied_picture_like[OF assms(3,4,5)] obtain q where
    q: "q \<in> set (copied e pic)" "picture_like pic q" by (auto simp: list_ex_iff)
  from assms(1,2) have "pic \<in> set (filter (\<lambda>sh. \<not> is_placeholder sh) (shapes t))"
    by (simp add: is_placeholder_def)
  with q(1) have "q \<in> set (concat (map (copied e) (filter (\<lambda>sh. \<not> is_placeholder sh) (shapes t))))"
    by auto
  with q(2) have "list_ex (picture_like pic)
                    (shapes (new_slide_from l)
                     @ concat (map (copied e) (filter (\<lambda>sh. \<not> is_placeholder sh) (shapes t))))"
    by (auto simp: list_ex_iff)
  then have "list_ex (picture_like pic) (map no_text (shapes (generated_slide e l (Some t) c)))"
    by (simp add: generated_slide_no_text list_ex_no_text del: list_ex_append map_append)
  then show ?thesis by (simp only: list_ex_no_text)
qed

lemma ex_copied:
  "copied ex_env ex_picture = [ex_picture]"
  "copied ex_env ex_linked_picture = []"
  "copied ex_env ex_textbox = [ex_textbox]"
  by (simp_all add: copied_def copy_shape_to_slide_def copy_image_shape_def copy_text_or_shape_def
        copy_text_formatting_def copy_paragraph_formatting_def try_except_def add_picture_def
        add_textbox_def set_text_def get_text_def ex_env_def ex_shape_defs ex_append_text
        Let_def)

lemma ex_is_placeholder:
  "is_placeholder ex_title_ph" "is_placeholder ex_body_ph" "is_placeholder ex_object_ph"
  "is_placeholder ex_content_ph"
  "\<not> is_placeholder ex_picture" "\<not> is_placeholder ex_linked_picture" "\<not> is_placeholder ex_textbox"
  by (simp_all add: is_placeholder_def ex_shape_defs)

lemma filter_placeholders_append:
  "list_all (\<lambda>x. \<not> is_placeholder x) extra \<Longrightarrow>
   filter is_placeholder (xs @ extra) = filter is_placeholder xs"
  by (simp add: list_all_iff)

lemma title_content_distinct:
  "is_title_ph sh \<Longrightarrow> \<not> is_content_ph sh"
  by (auto simp: is_title_ph_def is_content_ph_def split: option.splits)

lemma fill_points_texts:
  "pts \<noteq> [] \<Longrightarrow> map p_text (fill_points pts tf) = map append_text pts"
  by (cases pts; cases tf) (simp_all add: fill_points_def clear_def new_paragraph_def comp_def)

lemma fill_points_levels:
  "pts \<noteq> [] \<Longrightarrow> tl (map level (fill_points pts tf)) = replicate (length pts - 1) 0"
  by (cases pts; cases tf)
     (simp_all add: fill_points_def clear_def new_paragraph_def comp_def map_replicate_const)

lemma populate_slide_content_unfold:
  "populate_slide_content s c =
     (let title_text = (case title c of Some t \<Rightarrow> t | None \<Rightarrow> []);
          pts = (case points c of Some ps \<Rightarrow> ps | None \<Rightarrow> []);
          s1 = (case last_index is_title_ph (shapes s) of
                  Some ti \<Rightarrow> if title_text \<noteq> [] then update_shape ti (set_text title_text) s else s
                | None \<Rightarrow> s)
      in case last_index is_content_ph (shapes s) of
           Some ci \<Rightarrow>
             if pts \<noteq> [] then
               (case text_frame (shapes s1 ! ci) of
                  None \<Rightarrow> (Some AttributeError, s1)
                | Some tf \<Rightarrow>
                    (None, update_shape ci (\<lambda>sh. sh\<lparr>text_frame := Some (fill_points pts tf)\<rparr>) s1))
             else (None, s1)
         | None \<Rightarrow> (None, s1))"
proof -
  have "scan_placeholders (shapes s) 0 (None, None)
        = (last_index is_title_ph (shapes s), last_index is_content_ph (shapes s))"
    by (simp add: scan_placeholders_last split: option.splits)
  then show ?thesis by (simp add: populate_slide_content_def)
qed

lemma populate_slide_content_others:
  assumes "k < length (shapes s)" "last_index is_title_ph (shapes s) \<noteq> Some k"
    "last_index is_content_ph (shapes s) \<noteq> Some k"
  shows "shapes (snd (populate_slide_content s c)) ! k = shapes s ! k"
proof -
  let ?t = "case title c of Some t \<Rightarrow> t | None \<Rightarrow> []"
  let ?s1 = "case last_index is_title_ph (shapes s) of
               Some ti \<Rightarrow> if ?t \<noteq> [] then update_shape ti (set_text ?t) s else s
             | None \<Rightarrow> s"
  have s1: "shapes ?s1 ! k = shapes s ! k" "length (shapes ?s1) = length (shapes s)"
    using assms(1,2) by (auto split: option.splits)
  show ?thesis
  proof (cases "last_index is_content_ph (shapes s)")
    case None
    with s1 show ?thesis by (simp add: populate_slide_content_unfold Let_def)
  next
    case (Some ci)
    with assms(3) have "ci \<noteq> k" by simp
    with Some s1 show ?thesis
      by (cases "text_frame (shapes ?s1 ! ci)")
         (simp_all add: populate_slide_content_unfold Let_def)
  qed
qed

lemma populate_slide_content_title:
  assumes "last_index is_title_ph (shapes s) = Some ti" "title c = Some t" "t \<noteq> []"
  shows "shapes (snd (populate_slide_content s c)) ! ti = set_text t (shapes s ! ti)"
proof -
  let ?s1 = "update_shape ti (set_text t) s"
  from last_index_Some[OF assms(1)] have ti: "ti < length (shapes s)" "is_title_ph (shapes s ! ti)"
    by auto
  then have s1: "shapes ?s1 ! ti = set_text t (shapes s ! ti)" by simp
  show ?thesis
  proof (cases "last_index is_content_ph (shapes s)")
    case None
    with assms s1 show ?thesis by (simp add: populate_slide_content_unfold Let_def)
  next
    case (Some ci)
    from last_index_Some[OF Some] have "is_content_ph (shapes s ! ci)" by simp
    with ti(2) title_content_distinct have "ci \<noteq> ti" by auto
    with Some assms s1 ti(1) show ?thesis
      by (cases "text_frame (shapes ?s1 ! ci)")
         (simp_all add: populate_slide_content_unfold Let_def)
  qed
qed

lemma populate_slide_content_points:
  assumes "last_index is_content_ph (shapes s) = Some ci" "points c = Some pts" "pts \<noteq> []"
    "text_frame (shapes s ! ci) = Some tf"
  shows "populate_slide_content s c
         = (None, update_shape ci (\<lambda>sh. sh\<lparr>text_frame := Some (fill_points pts tf)\<rparr>)
                    (case last_index is_title_ph (shapes s) of
                       Some ti \<Rightarrow>
                         if (case title c of Some t \<Rightarrow> t | None \<Rightarrow> []) \<noteq> []
                         then update_shape ti (set_text (case title c of Some t \<Rightarrow> t | None \<Rightarrow> [])) s
                         else s
                     | None \<Rightarrow> s))"
proof -
  let ?t = "case title c of Some t \<Rightarrow> t | None \<Rightarrow> []"
  let ?s1 = "case last_index is_title_ph (shapes s) of
               Some ti \<Rightarrow> if ?t \<noteq> [] then update_shape ti (set_text ?t) s else s
             | None \<Rightarrow> s"
  from last_index_Some[OF assms(1)] have ci: "ci < length (shapes s)" "is_content_ph (shapes s ! ci)"
    by auto
  have "shapes ?s1 ! ci = shapes s ! ci"
  proof (cases "last_index is_title_ph (shapes s)")
    case None
    then show ?thesis by simp
  next
    case (Some ti)
    from last_index_Some[OF Some] have "is_title_ph (shapes s ! ti)" by simp
    with ci(2) title_content_distinct have "ti \<noteq> ci" by auto
    with Some show ?thesis by simp
  qed
  with assms show ?thesis by (simp add: populate_slide_content_unfold Let_def)
qed

lemma populate_slide_content_points_texts:
  assumes "last_index is_content_ph (shapes s) = Some ci" "points c = Some pts" "pts \<noteq> []"
    "text_frame (shapes s ! ci) = Some tf"
  shows "text_frame (shapes (snd (populate_slide_content s c)) ! ci) = Some (fill_points pts tf)"
proof -
  from last_index_Some[OF assms(1)] have ci: "ci < length (shapes s)" by auto
  have len: "\<And>f. length (shapes (case last_index is_title_ph (shapes s) of
                       Some ti \<Rightarrow>
                         if (case title c of Some t \<Rightarrow> t | None \<Rightarrow> []) \<noteq> []
                         then update_shape ti f s
                         else s
                     | None \<Rightarrow> s)) = length (shapes s)"
    by (auto split: option.splits)
  show ?thesis
    using ci len by (simp add: populate_slide_content_points[OF assms])
qed

lemma ex_kinds:
  "is_title_ph ex_title_ph" "\<not> is_content_ph ex_title_ph"
  "\<not> is_title_ph ex_body_ph" "is_content_ph ex_body_ph"
  "\<not> is_title_ph ex_object_ph" "is_content_ph ex_object_ph"
  "\<not> is_title_ph ex_content_ph" "is_content_ph ex_content_ph"
  by (simp_all add: is_title_ph_def is_content_ph_def ex_shape_defs)

lemma ex_two_content_last:
  "last_index is_title_ph (shapes ex_slide_two_content) = Some 0"
  "last_index is_content_ph (shapes ex_slide_two_content) = Some 2"
  by (simp_all add: ex_slide_two_content_def ex_kinds)

lemma insort_key_cong_set:
  "(\<forall>x\<in>set (a # xs). f x = g x) \<Longrightarrow> insort_key f a xs = insort_key g a xs"
  by (induction xs) auto

lemma sort_key_cong_set:
  "(\<forall>x\<in>set xs. f x = g x) \<Longrightarrow> sort_key f xs = sort_key g xs"
proof (induction xs)
  case Nil
  then show ?case by simp
next
  case (Cons a xs)
  then have ih: "sort_key f xs = sort_key g xs" by simp
  have "\<forall>x\<in>set (a # sort_key g xs). f x = g x" using Cons.prems by simp
  from insort_key_cong_set[OF this] ih show ?case by (simp add: sort_key_def)
qed

lemma placeholders_cong:
  assumes "map placeholder_format (shapes s') = map placeholder_format (shapes s)"
  shows "placeholders s' = placeholders s"
proof -
  from assms have len: "length (shapes s') = length (shapes s)" by (rule map_eq_imp_length_eq)
  have pf: "\<And>i. i < length (shapes s) \<Longrightarrow>
              placeholder_format (shapes s' ! i) = placeholder_format (shapes s ! i)"
    using assms len by (metis nth_map)
  have f: "filter (\<lambda>i. is_placeholder (shapes s' ! i)) [0..<length (shapes s)]
           = filter (\<lambda>i. is_placeholder (shapes s ! i)) [0..<length (shapes s)]"
    by (rule filter_cong) (simp_all add: is_placeholder_def pf)
  have "sort_key (\<lambda>i. ph_idx (shapes s' ! i))
          (filter (\<lambda>i. is_placeholder (shapes s ! i)) [0..<length (shapes s)])
        = sort_key (\<lambda>i. ph_idx (shapes s ! i))
          (filter (\<lambda>i. is_placeholder (shapes s ! i)) [0..<length (shapes s)])"
    by (rule sort_key_cong_set) (simp add: ph_idx_def pf)
  with f len show ?thesis by (simp add: placeholders_def)
qed

lemma set_content_find:
  assumes "\<forall>i\<in>set js. placeholder_format (shapes s ! i) \<noteq> None"
  shows "set_content js s c =
     (case find (\<lambda>i. is_body_ph (shapes s ! i)) js of
        None \<Rightarrow> (None, s)
      | Some bi \<Rightarrow>
          (case text_frame (shapes s ! bi) of
             None \<Rightarrow> (Some AttributeError, s)
           | Some tf \<Rightarrow>
               (None, update_shape bi
                  (\<lambda>sh. sh\<lparr>text_frame :=
                     Some (fill_points (case points c of Some ps \<Rightarrow> ps | None \<Rightarrow> []) tf)\<rparr>) s)))"
  using assms
proof (induction js)
  case Nil
  then show ?case by simp
next
  case (Cons i js)
  then obtain pf where pf: "placeholder_format (shapes s ! i) = Some pf" by auto
  show ?case
  proof (cases "ph_type pf = BODY")
    case True
    with pf show ?thesis
      by (cases "text_frame (shapes s ! i)") (simp_all add: is_body_ph_def)
  next
    case False
    with pf Cons show ?thesis by (simp add: is_body_ph_def)
  qed
qed

lemma placeholders_are_placeholders:
  "\<forall>i\<in>set (placeholders s). placeholder_format (shapes s ! i) \<noteq> None"
  by (simp add: set_placeholders is_placeholder_def)

lemma basic_slide_content_unfold:
  "basic_slide_content s c =
     (let s1 = (case shapes_title s of
                  Some ti \<Rightarrow> update_shape ti (set_text (case title c of Some t \<Rightarrow> t | None \<Rightarrow> [])) s
                | None \<Rightarrow> s)
      in case find (\<lambda>i. is_body_ph (shapes s ! i)) (placeholders s) of
           None \<Rightarrow> (None, s1)
         | Some bi \<Rightarrow>
             (case text_frame (shapes s1 ! bi) of
                None \<Rightarrow> (Some AttributeError, s1)
              | Some tf \<Rightarrow>
                  (None, update_shape bi
                     (\<lambda>sh. sh\<lparr>text_frame :=
                        Some (fill_points (case points c of Some ps \<Rightarrow> ps | None \<Rightarrow> []) tf)\<rparr>) s1)))"
proof -
  let ?s1 = "case shapes_title s of
               Some ti \<Rightarrow> update_shape ti (set_text (case title c of Some t \<Rightarrow> t | None \<Rightarrow> [])) s
             | None \<Rightarrow> s"
  have fm: "map placeholder_format (shapes ?s1) = map placeholder_format (shapes s)"
  proof (cases "shapes_title s")
    case None
    then show ?thesis by simp
  next
    case (Some ti)
    have "map placeholder_format
            (shapes (update_shape ti (set_text (case title c of Some t \<Rightarrow> t | None \<Rightarrow> [])) s))
          = map placeholder_format (shapes s)"
      by (rule update_shape_formats) (simp add: set_text_keeps)
    with Some show ?thesis by simp
  qed
  then have len: "length (shapes ?s1) = length (shapes s)" by (rule map_eq_imp_length_eq)
  have pl: "placeholders ?s1 = placeholders s" by (rule placeholders_cong[OF fm])
  have "\<And>i. i \<in> set (placeholders s) \<Longrightarrow> is_body_ph (shapes ?s1 ! i) = is_body_ph (shapes s ! i)"
  proof -
    fix i assume "i \<in> set (placeholders s)"
    then have "i < length (shapes s)" by (simp add: set_placeholders)
    with fm len have "placeholder_format (shapes ?s1 ! i) = placeholder_format (shapes s ! i)"
      by (metis nth_map)
    then show "is_body_ph (shapes ?s1 ! i) = is_body_ph (shapes s ! i)" by (simp add: is_body_ph_def)
  qed
  then have fi: "find (\<lambda>i. is_body_ph (shapes ?s1 ! i)) (placeholders s)
             = find (\<lambda>i. is_body_ph (shapes s ! i)) (placeholders s)"
    by (intro find_cong) simp_all
  have "set_content (placeholders ?s1) ?s1 c =
     (case find (\<lambda>i. is_body_ph (shapes ?s1 ! i)) (placeholders ?s1) of
        None \<Rightarrow> (None, ?s1)
      | Some bi \<Rightarrow>
          (case text_frame (shapes ?s1 ! bi) of
             None \<Rightarrow> (Some AttributeError, ?s1)
           | Some tf \<Rightarrow>
               (None, update_shape bi
                  (\<lambda>sh. sh\<lparr>text_frame :=
                     Some (fill_points (case points c of Some ps \<Rightarrow> ps | None \<Rightarrow> []) tf)\<rparr>) ?s1)))"
    by (rule set_content_find[OF placeholders_are_placeholders])
  then have B: "set_content (placeholders s) ?s1 c =
     (case find (\<lambda>i. is_body_ph (shapes s ! i)) (placeholders s) of
        None \<Rightarrow> (None, ?s1)
      | Some bi \<Rightarrow>
          (case text_frame (shapes ?s1 ! bi) of
             None \<Rightarrow> (Some AttributeError, ?s1)
           | Some tf \<Rightarrow>
               (None, update_shape bi
                  (\<lambda>sh. sh\<lparr>text_frame :=
                     Some (fill_points (case points c of Some ps \<Rightarrow> ps | None \<Rightarrow> []) tf)\<rparr>) ?s1)))"
    unfolding pl fi .
  show ?thesis
    unfolding basic_slide_content_def Let_def pl by (rule B)
qed

lemma find_body_None:
  "list_all (\<lambda>sh. \<not> is_body_ph sh) (shapes s) \<Longrightarrow>
   find (\<lambda>i. is_body_ph (shapes s ! i)) (placeholders s) = None"
  by (auto simp: find_None_iff set_placeholders list_all_length)

lemma find_body_Some:
  "find (\<lambda>i. is_body_ph (shapes s ! i)) (placeholders s) = Some bi \<Longrightarrow>
   bi < length (shapes s) \<and> is_body_ph (shapes s ! bi)"
proof -
  assume "find (\<lambda>i. is_body_ph (shapes s ! i)) (placeholders s) = Some bi"
  then have "bi \<in> set (placeholders s)" "is_body_ph (shapes s ! bi)"
    by (auto simp: find_Some_iff)
  then show ?thesis by (simp add: set_placeholders)
qed

lemma filled_texts:
  assumes "pts \<noteq> []" "i < length (shapes s)"
  shows "paragraph_texts (shapes (update_shape i (\<lambda>sh. sh\<lparr>text_frame := Some (fill_points pts tf)\<rparr>) s) ! i)
           = Some (map append_text pts)"
    and "map_option tl (paragraph_levels
           (shapes (update_shape i (\<lambda>sh. sh\<lparr>text_frame := Some (fill_points pts tf)\<rparr>) s) ! i))
           = Some (replicate (length pts - 1) 0)"
  using assms
  by (simp_all add: paragraph_texts_def paragraph_levels_def fill_points_texts fill_points_levels)

lemma populate_points_result:
  assumes "last_index is_content_ph (shapes s) = Some ci" "points c = Some pts" "pts \<noteq> []"
    "text_frame (shapes s ! ci) \<noteq> None"
  shows "fst (populate_slide_content s c) = None"
    and "paragraph_texts (shapes (snd (populate_slide_content s c)) ! ci)
         = Some (map append_text pts)"
    and "map_option tl (paragraph_levels (shapes (snd (populate_slide_content s c)) ! ci))
         = Some (replicate (length pts - 1) 0)"
proof -
  from assms(4) obtain tf where tf: "text_frame (shapes s ! ci) = Some tf" by blast
  from populate_slide_content_points[OF assms(1,2,3) tf]
  show "fst (populate_slide_content s c) = None" by simp
  from populate_slide_content_points_texts[OF assms(1,2,3) tf]
  have t: "text_frame (shapes (snd (populate_slide_content s c)) ! ci) = Some (fill_points pts tf)" .
  then show "paragraph_texts (shapes (snd (populate_slide_content s c)) ! ci)
         = Some (map append_text pts)"
    by (simp add: paragraph_texts_def fill_points_texts assms(3))
  from t show "map_option tl (paragraph_levels (shapes (snd (populate_slide_content s c)) ! ci))
         = Some (replicate (length pts - 1) 0)"
    by (simp add: paragraph_levels_def fill_points_levels assms(3))
qed

lemma basic_points_result:
  assumes "find (\<lambda>i. is_body_ph (shapes s ! i)) (placeholders s) = Some bi" "points c = Some pts"
    "pts \<noteq> []" "text_frame (shapes s ! bi) \<noteq> None"
  shows "fst (basic_slide_content s c) = None"
    and "paragraph_texts (shapes (snd (basic_slide_content s c)) ! bi)
         = Some (map append_text pts)"
    and "map_option tl (paragraph_levels (shapes (snd (basic_slide_content s c)) ! bi))
         = Some (replicate (length pts - 1) 0)"
proof -
  let ?s1 = "case shapes_title s of
               Some ti \<Rightarrow> update_shape ti (set_text (case title c of Some t \<Rightarrow> t | None \<Rightarrow> [])) s
             | None \<Rightarrow> s"
  from find_body_Some[OF assms(1)] have bi: "bi < length (shapes s)" by simp
  have len: "length (shapes ?s1) = length (shapes s)" by (auto split: option.splits)
  from assms(4) obtain tf0 where "text_frame (shapes s ! bi) = Some tf0" by blast
  then have "\<exists>tf. text_frame (shapes ?s1 ! bi) = Some tf"
    using bi by (auto split: option.splits simp: nth_update_at dest: set_text_frame_Some)
  then obtain tf where tf: "text_frame (shapes ?s1 ! bi) = Some tf" by blast
  have r: "basic_slide_content s c
           = (None, update_shape bi (\<lambda>sh. sh\<lparr>text_frame := Some (fill_points pts tf)\<rparr>) ?s1)"
    using assms(1,2) tf by (simp add: basic_slide_content_unfold Let_def)
  from r show "fst (basic_slide_content s c) = None" by simp
  from bi len have b1: "bi < length (shapes ?s1)" by simp
  from filled_texts(1)[OF assms(3) b1, of tf] r
  show "paragraph_texts (shapes (snd (basic_slide_content s c)) ! bi)
         = Some (map append_text pts)" by simp
  from filled_texts(2)[OF assms(3) b1, of tf] r
  show "map_option tl (paragraph_levels (shapes (snd (basic_slide_content s c)) ! bi))
         = Some (replicate (length pts - 1) 0)" by simp
qed

lemma basic_no_body:
  assumes "list_all (\<lambda>sh. \<not> is_body_ph sh) (shapes s)"
  shows "basic_slide_content s c =
     (None, case shapes_title s of
              Some ti \<Rightarrow> update_shape ti (set_text (case title c of Some t \<Rightarrow> t | None \<Rightarrow> [])) s
            | None \<Rightarrow> s)"
  using find_body_None[OF assms] by (simp add: basic_slide_content_unfold Let_def)

lemma ex_new_object_slide:
  "shapes (new_slide_from ex_layout_object)
   = [clone_placeholder ex_title_ph, clone_placeholder ex_content_ph]"
  by (simp add: new_slide_from_def ex_layout_object_def ex_is_placeholder)


lemma populate_points_plain:
  assumes "last_index is_content_ph (shapes s) = Some ci" "points c = Some pts" "pts \<noteq> []"
    "text_frame (shapes s ! ci) \<noteq> None" "list_all plain_text pts"
  shows "paragraph_texts (shapes (snd (populate_slide_content s c)) ! ci) = Some pts"
  using populate_points_result(2)[OF assms(1-4)] map_append_text_plain[OF assms(5)] by simp

lemma ex_append_text_control:
  "append_text [CHR ''a'', CHR 0x0A, CHR ''b''] = [CHR ''a'', CHR 0x0B, CHR ''b'']"
  "append_text [CHR ''r'', CHR 0x01, CHR ''s''] = ''r_x0001_s''"
  by (simp_all add: append_text_def escape_ctrl_char_def hex_digit_def)

lemma create_basic_presentation_form:
  "create_basic_presentation e files cs out =
     (case basic_deck e cs of
        None \<Rightarrow> (Inl IndexError, files)
      | Some d \<Rightarrow>
          if writable e out then (Inr out, write_file e files out (Deck d)) else (Inl PermissionError, files))"
proof (cases "basic_layout (Presentation_default e)")
  case (Inl err)
  then have "err = IndexError"
    by (auto simp: basic_layout_def getitem_def split: if_splits)
  with Inl show ?thesis
    by (simp add: create_basic_presentation_no_layout basic_deck_def)
next
  case (Inr l)
  then show ?thesis
    by (simp add: create_basic_presentation_layout basic_deck_def basic_slides_eq
          Presentation_default_def)
qed













section \<open>The claims\<close>

subsection \<open>C1: Slide count\<close>

text \<open>
  C1. Whenever \<open>create_ppt_from_template\<close> returns, the deck saved at the output path has
  exactly one slide for each content item; the same holds for the template path alone
  (\<open>template_attempt\<close>) and for the fallback path alone (\<open>create_basic_presentation\<close>).
  The call does return when the output path can be written and the default deck has a
  layout.
\<close>

theorem saved_deck_has_one_slide_per_item:
  "(create_ppt_from_template e files slide_data output_path template_path = (Inr p, files')
      \<longrightarrow> p = output_path \<and> saved_slide_count files' output_path = Some (length slide_data))
   \<and> (template_attempt e files slide_data output_path tp = (Inr p, files')
      \<longrightarrow> p = output_path \<and> saved_slide_count files' output_path = Some (length slide_data))
   \<and> (create_basic_presentation e files slide_data output_path = (Inr p, files')
      \<longrightarrow> p = output_path \<and> saved_slide_count files' output_path = Some (length slide_data))
   \<and> (writable e output_path \<and> default_layouts e \<noteq> []
      \<longrightarrow> fst (create_ppt_from_template e files slide_data output_path template_path)
          = Inr output_path)"
proof (intro conjI impI)
  assume "create_ppt_from_template e files slide_data output_path template_path = (Inr p, files')"
  then show "p = output_path" "saved_slide_count files' output_path = Some (length slide_data)"
    using create_ppt_from_template_count by blast+
next
  assume "template_attempt e files slide_data output_path tp = (Inr p, files')"
  then show "p = output_path" "saved_slide_count files' output_path = Some (length slide_data)"
    using template_attempt_count by blast+
next
  assume "create_basic_presentation e files slide_data output_path = (Inr p, files')"
  then show "p = output_path" "saved_slide_count files' output_path = Some (length slide_data)"
    using create_basic_presentation_count by blast+
next
  assume "writable e output_path \<and> default_layouts e \<noteq> []"
  then show "fst (create_ppt_from_template e files slide_data output_path template_path)
      = Inr output_path"
    using create_ppt_from_template_total by blast
qed

theorem saved_deck_has_one_slide_per_item_witness:
  "saved_slide_count
      (snd (create_ppt_from_template ex_env ex_files ex_items ''out.pptx'' (Some ''template.pptx'')))
      ''out.pptx'' = Some 2
   \<and> saved_slide_count
      (snd (template_attempt ex_env ex_files ex_items ''out.pptx'' ''template.pptx''))
      ''out.pptx'' = Some 2
   \<and> saved_slide_count
      (snd (create_basic_presentation ex_env ex_files ex_items ''out.pptx''))
      ''out.pptx'' = Some 2
   \<and> fst (create_ppt_from_template ex_env ex_files ex_items ''out.pptx'' None) = Inr ''out.pptx''"
proof -
  let ?g = "create_ppt_from_template ex_env ex_files ex_items ''out.pptx'' (Some ''template.pptx'')"
  let ?a = "template_attempt ex_env ex_files ex_items ''out.pptx'' ''template.pptx''"
  let ?b = "create_basic_presentation ex_env ex_files ex_items ''out.pptx''"
  have w: "writable ex_env ''out.pptx'' \<and> default_layouts ex_env \<noteq> []"
    by (simp add: ex_env_def)
  have a: "?a = (Inr ''out.pptx'', snd ?a)" using ex_attempt by (simp add: prod_eq_iff)
  have b: "?b = (Inr ''out.pptx'', snd ?b)" using ex_basic by (simp add: prod_eq_iff)
  have "fst ?g = Inr ''out.pptx''"
    using saved_deck_has_one_slide_per_item[of ex_env ex_files ex_items "''out.pptx''"
        "Some ''template.pptx''" "''out.pptx''" "snd ?g" "''template.pptx''"] w
    by simp
  then have g: "?g = (Inr ''out.pptx'', snd ?g)" by (simp add: prod_eq_iff)
  show ?thesis
    using saved_deck_has_one_slide_per_item[of ex_env ex_files ex_items "''out.pptx''"
        "Some ''template.pptx''" "''out.pptx''" "snd ?g" "''template.pptx''"]
      saved_deck_has_one_slide_per_item[of ex_env ex_files ex_items "''out.pptx''"
        "None" "''out.pptx''" "snd ?a" "''template.pptx''"]
      saved_deck_has_one_slide_per_item[of ex_env ex_files ex_items "''out.pptx''"
        "None" "''out.pptx''" "snd ?b" "''template.pptx''"]
      w a b g
    by (simp add: ex_items_def)
qed

subsection \<open>C2: Fallback on failure\<close>

text \<open>
  C2. A failure of the template attempt, whatever its error and wherever it arises (opening
  the template, choosing the layout, building the slides, saving), makes the call the
  fallback builder's call on the same file system and the same output path. For a
  template path that holds no readable deck the call is the fallback builder's; it returns
  the output path with a saved deck of one slide for each item when the output path can be
  written and the default deck has a layout. An exception leaves
  \<open>create_ppt_from_template\<close> only when the fallback builder raises it.
\<close>

theorem template_failure_falls_back:
  "(tp \<noteq> [] \<and> files tp \<noteq> None
      \<and> fst (template_attempt e files slide_data output_path tp) = Inl err
     \<longrightarrow> create_ppt_from_template e files slide_data output_path (Some tp)
         = create_basic_presentation e files slide_data output_path)
   \<and> (tp \<noteq> [] \<and> files tp = Some Corrupt
     \<longrightarrow> create_ppt_from_template e files slide_data output_path (Some tp)
         = create_basic_presentation e files slide_data output_path)
   \<and> (tp \<noteq> [] \<and> files tp = Some Corrupt \<and> writable e output_path \<and> default_layouts e \<noteq> []
     \<longrightarrow> fst (create_ppt_from_template e files slide_data output_path (Some tp)) = Inr output_path
       \<and> saved_slide_count
            (snd (create_ppt_from_template e files slide_data output_path (Some tp))) output_path
          = Some (length slide_data))
   \<and> (fst (create_ppt_from_template e files slide_data output_path template_path) = Inl err
     \<longrightarrow> fst (create_basic_presentation e files slide_data output_path) = Inl err)"
proof (intro conjI impI)
  assume "tp \<noteq> [] \<and> files tp \<noteq> None
      \<and> fst (template_attempt e files slide_data output_path tp) = Inl err"
  then show "create_ppt_from_template e files slide_data output_path (Some tp)
         = create_basic_presentation e files slide_data output_path"
    using create_ppt_from_template_failed_attempt[where tp=tp and files=files] by blast
next
  assume a: "tp \<noteq> [] \<and> files tp = Some Corrupt"
  then have "fst (template_attempt e files slide_data output_path tp) = Inl PackageNotFoundError"
    by (simp add: template_attempt_not_open Presentation_open_def)
  with a show "create_ppt_from_template e files slide_data output_path (Some tp)
         = create_basic_presentation e files slide_data output_path"
    using create_ppt_from_template_failed_attempt[where tp=tp and files=files] by auto
next
  assume a: "tp \<noteq> [] \<and> files tp = Some Corrupt \<and> writable e output_path \<and> default_layouts e \<noteq> []"
  let ?g = "create_ppt_from_template e files slide_data output_path (Some tp)"
  from a show g: "fst ?g = Inr output_path"
    using create_ppt_from_template_total by blast
  then have "?g = (Inr output_path, snd ?g)" by (simp add: prod_eq_iff)
  from create_ppt_from_template_count[OF this]
  show "saved_slide_count (snd ?g) output_path = Some (length slide_data)" by simp
next
  assume "fst (create_ppt_from_template e files slide_data output_path template_path) = Inl err"
  then show "fst (create_basic_presentation e files slide_data output_path) = Inl err"
    by (rule create_ppt_from_template_raises)
qed

theorem template_failure_falls_back_witness:
  "create_ppt_from_template ex_env ex_files ex_items ''out.pptx'' (Some ''bare.pptx'')
     = create_basic_presentation ex_env ex_files ex_items ''out.pptx''
   \<and> create_ppt_from_template ex_env ex_files ex_items ''out.pptx'' (Some ''broken.pptx'')
     = create_basic_presentation ex_env ex_files ex_items ''out.pptx''
   \<and> fst (create_ppt_from_template ex_env ex_files ex_items ''out.pptx'' (Some ''broken.pptx''))
     = Inr ''out.pptx''
   \<and> saved_slide_count
        (snd (create_ppt_from_template ex_env ex_files ex_items ''out.pptx'' (Some ''broken.pptx'')))
        ''out.pptx'' = Some 2
   \<and> fst (create_ppt_from_template ex_env ex_files ex_items ''/readonly/out.pptx''
             (Some ''template.pptx'')) = Inl PermissionError
   \<and> fst (create_basic_presentation ex_env ex_files ex_items ''/readonly/out.pptx'')
     = Inl PermissionError"
proof -
  have l: "template_slide_layout ex_bare (find_best_content_slide ex_bare) = Inl IndexError"
    unfolding ex_best_bare by (simp add: template_slide_layout_def getitem_def ex_bare_def)
  have a: "fst (template_attempt ex_env ex_files ex_items ''out.pptx'' ''bare.pptx'') = Inl IndexError"
    by (simp add: template_attempt_no_layout[OF ex_open(2) l])
  have b: "fst (create_basic_presentation ex_env ex_files ex_items ''/readonly/out.pptx'')
     = Inl PermissionError"
    by (simp add: create_basic_presentation_layout[OF ex_basic_layout] ex_writable)
  have lt: "template_slide_layout ex_template (find_best_content_slide ex_template)
        = Inr ex_layout_content"
    by (simp add: ex_best template_slide_layout_def ex_slide_content_def)
  have "template_attempt ex_env ex_files ex_items ''/readonly/out.pptx'' ''template.pptx''
        = (Inl PermissionError, ex_files)"
    by (simp add: template_attempt_layout[OF ex_open(1) lt] ex_writable)
  then have c: "fst (create_ppt_from_template ex_env ex_files ex_items ''/readonly/out.pptx''
             (Some ''template.pptx'')) = Inl PermissionError"
    using b by (simp add: create_ppt_from_template_def ex_files_at)
  have w: "writable ex_env ''out.pptx''" "default_layouts ex_env \<noteq> []"
    by (simp_all add: ex_env_def)
  note t1 = template_failure_falls_back[of "''bare.pptx''" ex_files ex_env ex_items "''out.pptx''"
        IndexError None]
  note t2 = template_failure_falls_back[of "''broken.pptx''" ex_files ex_env ex_items "''out.pptx''"
        IndexError None]
  note t3 = template_failure_falls_back[of "''template.pptx''" ex_files ex_env ex_items
        "''/readonly/out.pptx''" PermissionError "Some ''template.pptx''"]
  have ne: "''broken.pptx'' \<noteq> []" by simp
  have c1: "create_ppt_from_template ex_env ex_files ex_items ''out.pptx'' (Some ''bare.pptx'')
     = create_basic_presentation ex_env ex_files ex_items ''out.pptx''"
  proof -
    have "''bare.pptx'' \<noteq> []" "ex_files ''bare.pptx'' \<noteq> None" by (simp_all add: ex_files_at)
    with t1 a show ?thesis by blast
  qed
  have c2: "create_ppt_from_template ex_env ex_files ex_items ''out.pptx'' (Some ''broken.pptx'')
     = create_basic_presentation ex_env ex_files ex_items ''out.pptx''"
    using t2 ex_files_at(3) ne by blast
  have c3: "fst (create_ppt_from_template ex_env ex_files ex_items ''out.pptx'' (Some ''broken.pptx''))
     = Inr ''out.pptx''
   \<and> saved_slide_count
        (snd (create_ppt_from_template ex_env ex_files ex_items ''out.pptx'' (Some ''broken.pptx'')))
        ''out.pptx'' = Some (length ex_items)"
    using t2 ex_files_at(3) w ne by blast
  have c4: "fst (create_basic_presentation ex_env ex_files ex_items ''/readonly/out.pptx'')
     = Inl PermissionError"
    using t3 c by blast
  show ?thesis using c1 c2 c3 c4 c by (simp add: ex_items_def)
qed

subsection \<open>C3: Choice of the exemplar slide\<close>

text \<open>
  C3, as the specification words it, does not hold. In \<open>ex_compare\<close> both slides have a Title
  and a content placeholder, the second one two of them: the rule of the specification
  scores both 10 and returns the first, the code scores them 10 and 13 and returns the
  second. In \<open>ex_decor\<close> no slide has a placeholder: the rule of the specification returns
  the first slide, the code returns none.
\<close>

theorem best_slide_spec_counterexample:
  "find_best_content_slide ex_compare = Some ex_slide_two_content
   \<and> spec_findBestContentSlide ex_compare = Some ex_slide_content
   \<and> ex_slide_two_content \<noteq> ex_slide_content
   \<and> find_best_content_slide ex_decor = None
   \<and> spec_findBestContentSlide ex_decor = Some ex_slide_decor"
proof -
  have s: "slide_score ex_slide_content = 10" "slide_score ex_slide_two_content = 13"
    by (simp_all add: slide_score_counts ex_counts)
  have p: "spec_score ex_slide_content = 10" "spec_score ex_slide_two_content = 10"
    by (simp_all add: spec_score_def ex_counts)
  have 1: "find_best_content_slide ex_compare = Some ex_slide_two_content"
    by (simp add: find_best_content_slide_def ex_compare_def s)
  have 2: "spec_findBestContentSlide ex_compare = Some ex_slide_content"
    by (simp add: spec_findBestContentSlide_def ex_compare_def p)
  have 3: "ex_slide_two_content \<noteq> ex_slide_content"
    by (simp add: ex_slide_two_content_def ex_slide_content_def)
  have 4: "spec_findBestContentSlide ex_decor = Some ex_slide_decor"
    by (simp add: spec_findBestContentSlide_def ex_decor_def)
  from 1 2 3 4 ex_decor_best show ?thesis by simp
qed

text \<open>
  C3, amended. The score of a slide is 2 for each Title placeholder plus 3 for each Body
  or Object placeholder, plus 5 when both kinds are present; on a slide with at most one
  placeholder of each kind this is the score of the specification.
  \<open>find_best_content_slide\<close> returns the first slide that attains the highest score when that
  score is positive, and none when every score is 0. A slide with one Title and one Body
  placeholder (score 10) is chosen over a slide with one Title placeholder only (score 2),
  in either order.
\<close>

theorem best_slide_by_placeholder_count:
  "slide_score s =
     2 * int (n_title s) + 3 * int (n_content s)
     + (if 0 < n_title s \<and> 0 < n_content s then 5 else 0)
   \<and> (n_title s \<le> 1 \<and> n_content s \<le> 1 \<longrightarrow> slide_score s = spec_score s)
   \<and> (case find_best_content_slide prs of
        None \<Rightarrow> list_all (\<lambda>s. slide_score s = 0) (slides prs)
      | Some b \<Rightarrow>
          \<exists>i<length (slides prs). b = slides prs ! i \<and> 0 < slide_score b
            \<and> (\<forall>j<length (slides prs). slide_score (slides prs ! j) \<le> slide_score b)
            \<and> (\<forall>j<i. slide_score (slides prs ! j) < slide_score b))
   \<and> (n_title a = 1 \<and> n_content a = 0 \<and> n_title b = 1 \<and> n_content b = 1
      \<longrightarrow> slide_score a = 2 \<and> slide_score b = 10
        \<and> find_best_content_slide \<lparr>slides = [a, b], slide_layouts = ls\<rparr> = Some b
        \<and> find_best_content_slide \<lparr>slides = [b, a], slide_layouts = ls\<rparr> = Some b)"
proof (intro conjI impI)
  show "slide_score s =
     2 * int (n_title s) + 3 * int (n_content s)
     + (if 0 < n_title s \<and> 0 < n_content s then 5 else 0)"
    by (rule slide_score_counts)
next
  assume "n_title s \<le> 1 \<and> n_content s \<le> 1"
  then have "(n_title s = 0 \<or> n_title s = 1) \<and> (n_content s = 0 \<or> n_content s = 1)" by linarith
  then show "slide_score s = spec_score s"
    by (auto simp: slide_score_counts spec_score_def)
next
  show "case find_best_content_slide prs of
        None \<Rightarrow> list_all (\<lambda>s. slide_score s = 0) (slides prs)
      | Some b \<Rightarrow>
          \<exists>i<length (slides prs). b = slides prs ! i \<and> 0 < slide_score b
            \<and> (\<forall>j<length (slides prs). slide_score (slides prs ! j) \<le> slide_score b)
            \<and> (\<forall>j<i. slide_score (slides prs ! j) < slide_score b)"
  proof (cases "find_best_content_slide prs")
    case None
    then have "list_all (\<lambda>s. slide_score s = 0) (slides prs)"
      by (simp add: find_best_content_slide_None list_all_iff)
    with None show ?thesis by simp
  next
    case (Some b)
    from find_best_content_slide_Some[OF Some] Some show ?thesis by simp
  qed
next
  assume c: "n_title a = 1 \<and> n_content a = 0 \<and> n_title b = 1 \<and> n_content b = 1"
  then show sa: "slide_score a = 2" and sb: "slide_score b = 10"
    by (simp_all add: slide_score_counts)
  show "find_best_content_slide \<lparr>slides = [a, b], slide_layouts = ls\<rparr> = Some b"
    by (simp add: find_best_content_slide_def sa sb)
  show "find_best_content_slide \<lparr>slides = [b, a], slide_layouts = ls\<rparr> = Some b"
    by (simp add: find_best_content_slide_def sa sb)
qed

theorem best_slide_by_placeholder_count_witness:
  "slide_score ex_slide_two_content = 13
   \<and> slide_score ex_slide_title = spec_score ex_slide_title
   \<and> find_best_content_slide ex_template = Some ex_slide_content
   \<and> slide_score ex_slide_title = 2 \<and> slide_score ex_slide_content = 10
   \<and> find_best_content_slide
        \<lparr>slides = [ex_slide_content, ex_slide_title], slide_layouts = []\<rparr> = Some ex_slide_content"
proof -
  note t = best_slide_by_placeholder_count[of ex_slide_two_content ex_template ex_slide_title
      ex_slide_content "[]"]
  note u = best_slide_by_placeholder_count[of ex_slide_title ex_template ex_slide_title
      ex_slide_content "[]"]
  have 1: "slide_score ex_slide_two_content = 13" using t by (simp add: ex_counts)
  have 2: "slide_score ex_slide_title = spec_score ex_slide_title" using u by (simp add: ex_counts)
  have 3: "slide_score ex_slide_title = 2 \<and> slide_score ex_slide_content = 10
     \<and> find_best_content_slide
        \<lparr>slides = [ex_slide_content, ex_slide_title], slide_layouts = []\<rparr> = Some ex_slide_content"
    using t ex_counts by blast
  have "ex_template = \<lparr>slides = [ex_slide_title, ex_slide_content],
      slide_layouts = [ex_layout_title, ex_layout_content]\<rparr>" by (simp add: ex_template_def)
  moreover have "find_best_content_slide \<lparr>slides = [ex_slide_title, ex_slide_content],
      slide_layouts = [ex_layout_title, ex_layout_content]\<rparr> = Some ex_slide_content"
    using best_slide_by_placeholder_count[of ex_slide_title ex_template ex_slide_title
      ex_slide_content "[ex_layout_title, ex_layout_content]"] ex_counts by blast
  ultimately have 4: "find_best_content_slide ex_template = Some ex_slide_content" by simp
  from 1 2 3 4 show ?thesis by simp
qed

subsection \<open>C4: Placeholder scan\<close>

text \<open>
  C4, as stated, does not hold: on a slide with a Title, a Body and an Object placeholder,
  in this order, the first Body-or-Object placeholder is the one at position 1, but the scan
  ends with the one at position 2: the Body placeholder keeps its text and the Object
  placeholder receives the points.
\<close>

theorem populate_first_match_counterexample:
  "spec_scan (shapes ex_slide_two_content) = (Some 0, Some 1)
   \<and> scan_placeholders (shapes ex_slide_two_content) 0 (None, None) = (Some 0, Some 2)
   \<and> fst (populate_slide_content ex_slide_two_content ex_points_item) = None
   \<and> map paragraph_texts (shapes (snd (populate_slide_content ex_slide_two_content ex_points_item)))
       = [Some [''Intro''], Some [''Click to edit text''], Some [''a'', ''b'', ''c'']]"
proof -
  have 1: "spec_scan (shapes ex_slide_two_content) = (Some 0, Some 1)"
    by (simp add: spec_scan_def ex_slide_two_content_def ex_kinds)
  have 2: "scan_placeholders (shapes ex_slide_two_content) 0 (None, None) = (Some 0, Some 2)"
    by (simp add: scan_placeholders_last ex_two_content_last)
  have tf: "text_frame (shapes ex_slide_two_content ! 2) = Some [new_paragraph ''Click to edit text'']"
    by (simp add: ex_slide_two_content_def ex_object_ph_def ex_body_ph_def)
  have p: "points ex_points_item = Some [''a'', ''b'', ''c'']" "title ex_points_item = Some ''Intro''"
    by (simp_all add: ex_points_item_def)
  have "populate_slide_content ex_slide_two_content ex_points_item
        = (None, update_shape 2 (\<lambda>sh. sh\<lparr>text_frame :=
               Some (fill_points [''a'', ''b'', ''c''] [new_paragraph ''Click to edit text''])\<rparr>)
             (update_shape 0 (set_text ''Intro'') ex_slide_two_content))"
    using populate_slide_content_points[OF ex_two_content_last(2) p(1) _ tf]
    by (simp add: ex_two_content_last p)
  then have 3: "fst (populate_slide_content ex_slide_two_content ex_points_item) = None"
    and 4: "map paragraph_texts (shapes (snd (populate_slide_content ex_slide_two_content ex_points_item)))
       = [Some [''Intro''], Some [''Click to edit text''], Some [''a'', ''b'', ''c'']]"
    by (simp_all add: ex_slide_two_content_def paragraph_texts_def set_text_def fill_points_def
          clear_def ex_append_text ex_shape_defs)
  from 1 2 3 4 show ?thesis by simp
qed

text \<open>
  C4, amended. The scan of \<open>populate_slide_content\<close> selects the last Title placeholder and
  the last Body-or-Object placeholder in shape order (\<open>last_index\<close>: a position that
  satisfies the test and after which no position does; none when no shape satisfies it).
  Population keeps the number of shapes and changes no shape but the two selected ones:
  the selected Title placeholder gets the title when that is not empty, the selected
  Body-or-Object placeholder gets the points when there are some, and earlier placeholders
  of the same kinds are left as they are.
\<close>

theorem populate_selects_last_placeholders:
  "scan_placeholders (shapes s) 0 (None, None)
     = (last_index is_title_ph (shapes s), last_index is_content_ph (shapes s))
   \<and> (last_index P xs = Some j
       \<longrightarrow> j < length xs \<and> P (xs ! j) \<and> (\<forall>k. j < k \<and> k < length xs \<longrightarrow> \<not> P (xs ! k)))
   \<and> (last_index P xs = None \<longleftrightarrow> list_all (\<lambda>x. \<not> P x) xs)
   \<and> length (shapes (snd (populate_slide_content s c))) = length (shapes s)
   \<and> (k < length (shapes s) \<and> last_index is_title_ph (shapes s) \<noteq> Some k
        \<and> last_index is_content_ph (shapes s) \<noteq> Some k
       \<longrightarrow> shapes (snd (populate_slide_content s c)) ! k = shapes s ! k)
   \<and> (last_index is_title_ph (shapes s) = Some ti \<and> title c = Some t \<and> t \<noteq> []
       \<longrightarrow> shapes (snd (populate_slide_content s c)) ! ti = set_text t (shapes s ! ti))
   \<and> (last_index is_content_ph (shapes s) = Some ci \<and> points c = Some pts \<and> pts \<noteq> []
        \<and> text_frame (shapes s ! ci) = Some tf
       \<longrightarrow> text_frame (shapes (snd (populate_slide_content s c)) ! ci)
           = Some (fill_points pts tf))"
proof (intro conjI impI)
  show "scan_placeholders (shapes s) 0 (None, None)
     = (last_index is_title_ph (shapes s), last_index is_content_ph (shapes s))"
    by (simp add: scan_placeholders_last split: option.splits)
  show "(last_index P xs = None) = list_all (\<lambda>x. \<not> P x) xs"
    by (simp add: last_index_None list_all_iff)
  show "length (shapes (snd (populate_slide_content s c))) = length (shapes s)"
    by (rule populate_slide_content_length)
next
  assume "last_index P xs = Some j"
  from last_index_Some[OF this]
  show "j < length xs" "P (xs ! j)" "\<forall>k. j < k \<and> k < length xs \<longrightarrow> \<not> P (xs ! k)" by auto
next
  assume "k < length (shapes s) \<and> last_index is_title_ph (shapes s) \<noteq> Some k
        \<and> last_index is_content_ph (shapes s) \<noteq> Some k"
  then show "shapes (snd (populate_slide_content s c)) ! k = shapes s ! k"
    using populate_slide_content_others by blast
next
  assume "last_index is_title_ph (shapes s) = Some ti \<and> title c = Some t \<and> t \<noteq> []"
  then show "shapes (snd (populate_slide_content s c)) ! ti = set_text t (shapes s ! ti)"
    using populate_slide_content_title by blast
next
  assume "last_index is_content_ph (shapes s) = Some ci \<and> points c = Some pts \<and> pts \<noteq> []
        \<and> text_frame (shapes s ! ci) = Some tf"
  then show "text_frame (shapes (snd (populate_slide_content s c)) ! ci)
           = Some (fill_points pts tf)"
    using populate_slide_content_points_texts by blast
qed

theorem populate_selects_last_placeholders_witness:
  "scan_placeholders (shapes ex_slide_two_content) 0 (None, None) = (Some 0, Some 2)
   \<and> is_content_ph (shapes ex_slide_two_content ! 2)
   \<and> shapes (snd (populate_slide_content ex_slide_two_content ex_points_item)) ! 1 = ex_body_ph
   \<and> shapes (snd (populate_slide_content ex_slide_two_content ex_points_item)) ! 0
       = set_text ''Intro'' ex_title_ph
   \<and> text_frame (shapes (snd (populate_slide_content ex_slide_two_content ex_points_item)) ! 2)
       = Some (fill_points [''a'', ''b'', ''c''] [new_paragraph ''Click to edit text''])"
proof -
  note t = populate_selects_last_placeholders[of ex_slide_two_content is_content_ph
      "shapes ex_slide_two_content" 2 ex_points_item 1 0 "''Intro''" 2 "[''a'', ''b'', ''c'']"
      "[new_paragraph ''Click to edit text'']"]
  have tf: "text_frame (shapes ex_slide_two_content ! 2) = Some [new_paragraph ''Click to edit text'']"
    by (simp add: ex_slide_two_content_def ex_object_ph_def ex_body_ph_def)
  have p: "points ex_points_item = Some [''a'', ''b'', ''c'']" "title ex_points_item = Some ''Intro''"
    by (simp_all add: ex_points_item_def)
  have n: "shapes ex_slide_two_content ! 1 = ex_body_ph" "shapes ex_slide_two_content ! 0 = ex_title_ph"
    "(1::nat) < length (shapes ex_slide_two_content)"
    by (simp_all add: ex_slide_two_content_def)
  from t ex_two_content_last tf p n show ?thesis by simp
qed

subsection \<open>C5: Point population\<close>

text \<open>
  C5. The claim asks that, for an item with a non-empty list of points, the Body-or-Object
  placeholder of the slide ends with the points as its paragraph texts, in order, in
  \<open>populate_slide_content\<close> and in the fallback builder alike. The fallback builder does
  not do it. Its slides come from the layout at index 1 of the library's default deck,
  \<^verbatim>\<open>Title and Content\<close>, whose content placeholder is of the Object kind, and its loop
  over the placeholders tests for \<^verbatim>\<open>PP_PLACEHOLDER.BODY\<close> alone. For the item with the title
  \<^verbatim>\<open>Intro\<close> and the points \<^verbatim>\<open>a\<close>, \<^verbatim>\<open>b\<close>, \<^verbatim>\<open>c\<close> and no template, the call returns the
  output path and the saved slide has the title and a content placeholder with one empty
  paragraph: no point is written. \<open>populate_slide_content\<close>, whose test accepts both
  kinds, writes the three points to the same slide.
\<close>

theorem fallback_leaves_object_placeholder_empty:
  "basic_layout (Presentation_default ex_env) = Inr ex_layout_object
   \<and> map is_content_ph (shapes (new_slide_from ex_layout_object)) = [False, True]
   \<and> points ex_points_item = Some [''a'', ''b'', ''c'']
   \<and> fst (create_ppt_from_template ex_env ex_files [ex_points_item] ''out.pptx'' None)
       = Inr ''out.pptx''
   \<and> map_option deck_placeholder_texts
        (saved_deck (snd (create_ppt_from_template ex_env ex_files [ex_points_item] ''out.pptx'' None))
           ''out.pptx'')
       = Some [[Some [''Intro''], Some [[]]]]
   \<and> map paragraph_texts
        (shapes (snd (populate_slide_content (new_slide_from ex_layout_object) ex_points_item)))
       = [Some [''Intro''], Some [''a'', ''b'', ''c'']]"
proof -
  let ?s = "new_slide_from ex_layout_object"
  let ?g = "create_ppt_from_template ex_env ex_files [ex_points_item] ''out.pptx'' None"
  have 1: "map is_content_ph (shapes ?s) = [False, True]"
    by (simp add: ex_new_object_slide is_content_ph_def clone_placeholder_def ex_shape_defs)
  have 2: "points ex_points_item = Some [''a'', ''b'', ''c'']" by (simp add: ex_points_item_def)
  have nb: "list_all (\<lambda>sh. \<not> is_body_ph sh) (shapes ?s)"
    by (simp add: ex_new_object_slide is_body_ph_def clone_placeholder_def ex_shape_defs)
  have ti: "shapes_title ?s = Some 0"
    by (simp add: shapes_title_def ex_new_object_slide is_placeholder_def ph_idx_def
          clone_placeholder_def ex_shape_defs upt_rec)
  have b: "basic_slide_content ?s ex_points_item = (None, update_shape 0 (set_text ''Intro'') ?s)"
    by (simp add: basic_no_body[OF nb] ti ex_points_item_def)
  then have bs: "basic_slide ex_layout_object ex_points_item = update_shape 0 (set_text ''Intro'') ?s"
    by (simp add: basic_slide_def)
  have t: "map paragraph_texts (filter is_placeholder (shapes (update_shape 0 (set_text ''Intro'') ?s)))
       = [Some [''Intro''], Some [[]]]"
    by (simp add: ex_new_object_slide paragraph_texts_def set_text_def clone_placeholder_def
          new_paragraph_def is_placeholder_def ex_append_text ex_title_ph_def ex_content_ph_def
          ex_body_ph_def)
  let ?d = "(Presentation_default ex_env)\<lparr>slides := [basic_slide ex_layout_object ex_points_item]\<rparr>"
  have bd: "basic_deck ex_env [ex_points_item] = Some ?d"
    by (simp add: basic_deck_def ex_basic_layout)
  have g: "?g = (Inr ''out.pptx'', write_file ex_env ex_files ''out.pptx'' (Deck ?d))"
    by (simp add: create_ppt_from_template_def create_basic_presentation_form bd ex_writable)
  then have 3: "fst ?g = Inr ''out.pptx''" by simp
  from g have "saved_deck (snd ?g) ''out.pptx'' = Some ?d" by (simp add: saved_deck_def)
  then have 4: "map_option deck_placeholder_texts (saved_deck (snd ?g) ''out.pptx'')
       = Some [[Some [''Intro''], Some [[]]]]"
    using t by (simp add: deck_placeholder_texts_def bs)
  have li: "last_index is_title_ph (shapes ?s) = Some 0" "last_index is_content_ph (shapes ?s) = Some 1"
    by (simp_all add: ex_new_object_slide is_title_ph_def is_content_ph_def clone_placeholder_def
          ex_shape_defs)
  have tf: "text_frame (shapes ?s ! 1) = Some [new_paragraph []]"
    by (simp add: ex_new_object_slide clone_placeholder_def)
  have "populate_slide_content ?s ex_points_item
        = (None, update_shape 1 (\<lambda>sh. sh\<lparr>text_frame :=
               Some (fill_points [''a'', ''b'', ''c''] [new_paragraph []])\<rparr>)
             (update_shape 0 (set_text ''Intro'') ?s))"
    using populate_slide_content_points[OF li(2) 2 _ tf]
    by (simp add: li ex_points_item_def)
  then have 5: "map paragraph_texts (shapes (snd (populate_slide_content ?s ex_points_item)))
       = [Some [''Intro''], Some [''a'', ''b'', ''c'']]"
    by (simp add: ex_new_object_slide paragraph_texts_def set_text_def fill_points_def clear_def
          clone_placeholder_def new_paragraph_def ex_append_text)
  from ex_basic_layout 1 2 3 4 5 show ?thesis by simp
qed

subsection \<open>C6: Picture replication\<close>

text \<open>
  C6, as stated, does not hold: the exemplar slide \<open>ex_slide_linked\<close> has a picture shape
  whose image is linked, not embedded; reading its bytes raises, the copy is skipped, and
  the generated slide has no picture shape at all.
\<close>

theorem picture_not_replicated_counterexample:
  "list_ex (\<lambda>sh. shape_type sh = PICTURE \<and> \<not> is_placeholder sh) (shapes ex_slide_linked)
   \<and> fst (duplicate_slide_with_content ex_env ex_plain ex_layout_content (Some ex_slide_linked)
            \<lparr>title = Some ''Intro'', points = Some [''a'']\<rparr>) = None
   \<and> list_all (\<lambda>q. shape_type q \<noteq> PICTURE)
        (shapes (last (slides (snd (duplicate_slide_with_content ex_env ex_plain ex_layout_content
           (Some ex_slide_linked) \<lparr>title = Some ''Intro'', points = Some [''a'']\<rparr>)))))"
proof -
  let ?c = "\<lparr>title = Some ''Intro'', points = Some [''a'']\<rparr>"
  let ?g = "generated_slide ex_env ex_layout_content (Some ex_slide_linked) ?c"
  have 1: "list_ex (\<lambda>sh. shape_type sh = PICTURE \<and> \<not> is_placeholder sh) (shapes ex_slide_linked)"
    by (simp add: ex_slide_linked_def ex_is_placeholder) (simp add: ex_shape_defs)
  have f: "filter (\<lambda>sh. \<not> is_placeholder sh) (shapes ex_slide_linked) = [ex_linked_picture]"
    by (simp add: ex_slide_linked_def ex_is_placeholder)
  have "map no_text (shapes ?g) = map no_text (shapes (new_slide_from ex_layout_content))"
    by (simp add: generated_slide_no_text f ex_copied)
  then have "map shape_type (map no_text (shapes ?g))
             = map shape_type (map no_text (shapes (new_slide_from ex_layout_content)))" by simp
  then have "map shape_type (shapes ?g) = map shape_type (shapes (new_slide_from ex_layout_content))"
    by (simp add: no_text_def comp_def)
  also have "\<dots> = [PLACEHOLDER, PLACEHOLDER]"
    by (simp add: new_slide_from_def ex_layout_content_def ex_is_placeholder clone_placeholder_def)
  finally have "list_all (\<lambda>t. t \<noteq> PICTURE) (map shape_type (shapes ?g))" by simp
  then have 3: "list_all (\<lambda>q. shape_type q \<noteq> PICTURE) (shapes ?g)"
    by (simp add: list_all_iff)
  show ?thesis using 1 3 by (simp add: duplicate_slide_with_content_eq)
qed

text \<open>
  C6, amended. For a picture shape of the exemplar slide whose image bytes can be read and
  are accepted by the library, the generated slide has a picture with the same left, top,
  width and height, built from the same bytes, and with the rotation of the source when
  the source has one. On a successful template attempt every slide of the saved deck, one
  for each item, has such a picture.
\<close>

theorem picture_replicated_when_readable:
  "(pic \<in> set (shapes t) \<and> placeholder_format pic = None \<and> shape_type pic = PICTURE
      \<and> image_blob pic = Some d \<and> image_ok e d
     \<longrightarrow> fst (duplicate_slide_with_content e prs l (Some t) c) = None
       \<and> list_ex (picture_like pic)
           (shapes (last (slides (snd (duplicate_slide_with_content e prs l (Some t) c))))))
   \<and> (pic \<in> set (shapes t) \<and> placeholder_format pic = None \<and> shape_type pic = PICTURE
      \<and> image_blob pic = Some d \<and> image_ok e d
      \<and> files tp = Some (Deck doc) \<and> find_best_content_slide doc = Some t
      \<and> template_attempt e files slide_data output_path tp = (Inr p, files')
     \<longrightarrow> (\<exists>deck. files' output_path = Some (Deck deck)
            \<and> length (slides deck) = length slide_data
            \<and> list_all (\<lambda>s. list_ex (picture_like pic) (shapes s)) (slides deck)))"
proof (intro conjI impI)
  assume a: "pic \<in> set (shapes t) \<and> placeholder_format pic = None \<and> shape_type pic = PICTURE
      \<and> image_blob pic = Some d \<and> image_ok e d"
  show "fst (duplicate_slide_with_content e prs l (Some t) c) = None"
    by (simp add: duplicate_slide_with_content_eq)
  from a have "list_ex (picture_like pic) (shapes (generated_slide e l (Some t) c))"
    using generated_slide_picture by blast
  then show "list_ex (picture_like pic)
           (shapes (last (slides (snd (duplicate_slide_with_content e prs l (Some t) c)))))"
    by (simp add: duplicate_slide_with_content_eq)
next
  assume a: "pic \<in> set (shapes t) \<and> placeholder_format pic = None \<and> shape_type pic = PICTURE
      \<and> image_blob pic = Some d \<and> image_ok e d
      \<and> files tp = Some (Deck doc) \<and> find_best_content_slide doc = Some t
      \<and> template_attempt e files slide_data output_path tp = (Inr p, files')"
  then have o: "Presentation_open files tp = Inr doc" by (simp add: Presentation_open_def)
  from a have l: "template_slide_layout doc (find_best_content_slide doc) = Inr (slide_layout t)"
    by (simp add: template_slide_layout_def)
  let ?deck = "snd (build_slides e (slide_layout t) (find_best_content_slide doc) slide_data
                     (doc\<lparr>slides := []\<rparr>))"
  from template_attempt_layout[OF o l, of e slide_data output_path] a
  have f: "files' = write_file e files output_path (Deck ?deck)" by (auto split: if_splits)
  from a have s: "slides ?deck = map (generated_slide e (slide_layout t) (Some t)) slide_data"
    by (simp add: build_slides_eq)
  have "\<And>c. list_ex (picture_like pic) (shapes (generated_slide e (slide_layout t) (Some t) c))"
    using a generated_slide_picture by blast
  then have "list_all (\<lambda>s. list_ex (picture_like pic) (shapes s)) (slides ?deck)"
    unfolding s by (simp add: list_all_iff)
  with f s show "\<exists>deck. files' output_path = Some (Deck deck)
            \<and> length (slides deck) = length slide_data
            \<and> list_all (\<lambda>s. list_ex (picture_like pic) (shapes s)) (slides deck)"
    by simp
qed

theorem picture_replicated_when_readable_witness:
  "list_ex (picture_like ex_picture)
     (shapes (last (slides (snd (duplicate_slide_with_content ex_env ex_plain ex_layout_content
        (Some ex_slide_content) \<lparr>title = Some ''Intro'', points = Some [''a'']\<rparr>)))))
   \<and> (\<exists>deck. snd (template_attempt ex_env ex_files ex_items ''out.pptx'' ''template.pptx'') ''out.pptx''
          = Some (Deck deck)
        \<and> length (slides deck) = 2
        \<and> list_all (\<lambda>s. list_ex (picture_like ex_picture) (shapes s)) (slides deck))"
proof -
  let ?a = "template_attempt ex_env ex_files ex_items ''out.pptx'' ''template.pptx''"
  have a: "?a = (Inr ''out.pptx'', snd ?a)" using ex_attempt by (simp add: prod_eq_iff)
  have p: "ex_picture \<in> set (shapes ex_slide_content)" "placeholder_format ex_picture = None"
    "shape_type ex_picture = PICTURE" "image_blob ex_picture = Some ''PNG-logo''"
    "image_ok ex_env ''PNG-logo''"
    by (simp_all add: ex_slide_content_def ex_picture_def ex_env_def)
  note t = picture_replicated_when_readable[of ex_picture ex_slide_content "''PNG-logo''" ex_env
      ex_plain ex_layout_content "\<lparr>title = Some ''Intro'', points = Some [''a'']\<rparr>"
      ex_files "''template.pptx''" ex_template ex_items "''out.pptx''" "''out.pptx''" "snd ?a"]
  have "length ex_items = 2" by (simp add: ex_items_def)
  with t p a ex_files_at(1) ex_best show ?thesis by simp
qed

subsection \<open>C7: Isolation of copy failures\<close>

text \<open>
  C7. \<open>copy_template_visual_elements\<close> and \<open>copy_shape_to_slide\<close> always return normally.
  The target slide ends with its own shapes, unchanged and first, followed by what
  copying each non-placeholder shape of the template slide alone yields, in order: a
  shape whose copy fails yields nothing and the shapes after it are still copied. What is
  appended is never a placeholder, so the placeholders of the target are the ones it had.
  A picture whose image cannot be read, or is refused, is such a failing shape.
\<close>

theorem replication_never_raises:
  "fst (copy_template_visual_elements e template_slide new_slide) = None
   \<and> fst (copy_shape_to_slide e sh new_slide) = None
   \<and> snd (copy_template_visual_elements e template_slide new_slide)
       = new_slide\<lparr>shapes := shapes new_slide
           @ concat (map (copied e) (filter (\<lambda>sh. \<not> is_placeholder sh) (shapes template_slide)))\<rparr>
   \<and> list_all (\<lambda>x. \<not> is_placeholder x) (copied e sh)
   \<and> filter is_placeholder (shapes (snd (copy_template_visual_elements e template_slide new_slide)))
       = filter is_placeholder (shapes new_slide)
   \<and> take (length (shapes new_slide))
        (shapes (snd (copy_template_visual_elements e template_slide new_slide)))
       = shapes new_slide
   \<and> (shape_type sh = PICTURE
        \<and> (image_blob sh = None \<or> (\<exists>d. image_blob sh = Some d \<and> \<not> image_ok e d))
      \<longrightarrow> copy_shape_to_slide e sh new_slide = (None, new_slide) \<and> copied e sh = [])"
proof (intro conjI impI)
  show "fst (copy_template_visual_elements e template_slide new_slide) = None"
    by (simp add: copy_template_visual_elements_copied)
  show "fst (copy_shape_to_slide e sh new_slide) = None"
    by (simp add: copy_shape_to_slide_copied)
  show "snd (copy_template_visual_elements e template_slide new_slide)
       = new_slide\<lparr>shapes := shapes new_slide
           @ concat (map (copied e) (filter (\<lambda>sh. \<not> is_placeholder sh) (shapes template_slide)))\<rparr>"
    by (simp add: copy_template_visual_elements_copied)
  show "list_all (\<lambda>x. \<not> is_placeholder x) (copied e sh)"
    by (rule copied_not_placeholder)
  have "list_all (\<lambda>x. \<not> is_placeholder x)
          (concat (map (copied e) (filter (\<lambda>sh. \<not> is_placeholder sh) (shapes template_slide))))"
    using copied_not_placeholder[of e] by (auto simp: list_all_iff)
  then show "filter is_placeholder
        (shapes (snd (copy_template_visual_elements e template_slide new_slide)))
       = filter is_placeholder (shapes new_slide)"
    by (simp add: copy_template_visual_elements_copied filter_placeholders_append
          del: filter_append)
  show "take (length (shapes new_slide))
        (shapes (snd (copy_template_visual_elements e template_slide new_slide)))
       = shapes new_slide"
    by (simp add: copy_template_visual_elements_copied)
next
  assume a: "shape_type sh = PICTURE
        \<and> (image_blob sh = None \<or> (\<exists>d. image_blob sh = Some d \<and> \<not> image_ok e d))"
  then show "copy_shape_to_slide e sh new_slide = (None, new_slide)"
    using picture_failure_skipped by blast
  from a show "copied e sh = []"
    using copied_picture_failure by blast
qed

theorem replication_never_raises_witness:
  "fst (copy_template_visual_elements ex_env ex_slide_content (new_slide_from ex_layout_content)) = None
   \<and> shapes (snd (copy_template_visual_elements ex_env ex_slide_content
                    (new_slide_from ex_layout_content)))
       = shapes (new_slide_from ex_layout_content) @ [ex_picture, ex_textbox]
   \<and> copy_shape_to_slide ex_env ex_linked_picture (new_slide_from ex_layout_content)
       = (None, new_slide_from ex_layout_content)"
proof -
  note t = replication_never_raises[of ex_env ex_slide_content "new_slide_from ex_layout_content"
      ex_linked_picture]
  have f: "filter (\<lambda>sh. \<not> is_placeholder sh) (shapes ex_slide_content)
           = [ex_picture, ex_linked_picture, ex_textbox]"
    by (simp add: ex_slide_content_def ex_is_placeholder)
  have p: "shape_type ex_linked_picture = PICTURE" "image_blob ex_linked_picture = None"
    by (simp_all add: ex_shape_defs)
  from t have "snd (copy_template_visual_elements ex_env ex_slide_content
                    (new_slide_from ex_layout_content))
       = (new_slide_from ex_layout_content)\<lparr>shapes := shapes (new_slide_from ex_layout_content)
           @ [ex_picture, ex_textbox]\<rparr>"
    by (simp add: f ex_copied)
  then have 2: "shapes (snd (copy_template_visual_elements ex_env ex_slide_content
                    (new_slide_from ex_layout_content)))
       = shapes (new_slide_from ex_layout_content) @ [ex_picture, ex_textbox]"
    by simp
  from t p have 3: "copy_shape_to_slide ex_env ex_linked_picture (new_slide_from ex_layout_content)
       = (None, new_slide_from ex_layout_content)" by blast
  from t 2 3 show ?thesis by blast
qed

subsection \<open>C8: Repeated generation\<close>




subsection \<open>C9: No exemplar\<close>

text \<open>
  C9. \<open>find_best_content_slide\<close> returns none exactly when every slide of the document has
  score 0, and a score is never negative and is 0 exactly when the slide has no Title and
  no Body or Object placeholder. When the template attempt then succeeds, each saved
  slide is the slide generated without an exemplar from the layout at index 1, and it
  holds placeholders only: no shape was replicated.
\<close>

theorem no_exemplar_without_positive_score:
  "(find_best_content_slide prs = None \<longleftrightarrow> list_all (\<lambda>s. slide_score s = 0) (slides prs))
   \<and> 0 \<le> slide_score s
   \<and> (slide_score s = 0
       \<longleftrightarrow> list_all (\<lambda>sh. \<not> is_title_ph sh \<and> \<not> is_content_ph sh) (shapes s))
   \<and> (files tp = Some (Deck prs) \<and> find_best_content_slide prs = None
       \<and> template_attempt e files slide_data output_path tp = (Inr p, files')
      \<longrightarrow> (\<exists>deck. files' output_path = Some (Deck deck)
             \<and> slides deck = map (generated_slide e (slide_layouts prs ! 1) None) slide_data
             \<and> list_all (\<lambda>s. list_all is_placeholder (shapes s)) (slides deck)))"
proof (intro conjI impI)
  show "find_best_content_slide prs = None \<longleftrightarrow> list_all (\<lambda>s. slide_score s = 0) (slides prs)"
    by (simp add: find_best_content_slide_None list_all_iff)
  show "0 \<le> slide_score s" by (rule slide_score_nonneg)
  show "slide_score s = 0
       \<longleftrightarrow> list_all (\<lambda>sh. \<not> is_title_ph sh \<and> \<not> is_content_ph sh) (shapes s)"
    by (rule slide_score_zero_shapes)
next
  assume a: "files tp = Some (Deck prs) \<and> find_best_content_slide prs = None
       \<and> template_attempt e files slide_data output_path tp = (Inr p, files')"
  then have o: "Presentation_open files tp = Inr prs" by (simp add: Presentation_open_def)
  have len: "2 \<le> length (slide_layouts prs)"
  proof (rule ccontr)
    assume "\<not> 2 \<le> length (slide_layouts prs)"
    with a have "template_slide_layout prs (find_best_content_slide prs) = Inl IndexError"
      by (simp add: template_slide_layout_def getitem_def)
    from template_attempt_no_layout[OF o this] a show False by simp
  qed
  with a have l: "template_slide_layout prs (find_best_content_slide prs)
                  = Inr (slide_layouts prs ! 1)"
    by (simp add: template_slide_layout_def getitem_def)
  let ?deck = "snd (build_slides e (slide_layouts prs ! 1) (find_best_content_slide prs) slide_data
                     (prs\<lparr>slides := []\<rparr>))"
  from template_attempt_layout[OF o l, of e slide_data output_path] a
  have f: "files' = write_file e files output_path (Deck ?deck)" by (auto split: if_splits)
  from a have s: "slides ?deck = map (generated_slide e (slide_layouts prs ! 1) None) slide_data"
    by (simp add: build_slides_eq)
  have "list_all (\<lambda>s. list_all is_placeholder (shapes s)) (slides ?deck)"
    unfolding s using generated_slide_no_exemplar by (auto simp: list_all_iff)
  with f s show "\<exists>deck. files' output_path = Some (Deck deck)
             \<and> slides deck = map (generated_slide e (slide_layouts prs ! 1) None) slide_data
             \<and> list_all (\<lambda>s. list_all is_placeholder (shapes s)) (slides deck)"
    by simp
qed

theorem no_exemplar_without_positive_score_witness:
  "find_best_content_slide ex_decor = None
   \<and> list_all (\<lambda>s. slide_score s = 0) (slides ex_decor)
   \<and> slide_score ex_slide_decor = 0
   \<and> list_all (\<lambda>sh. \<not> is_title_ph sh \<and> \<not> is_content_ph sh) (shapes ex_slide_decor)
   \<and> (\<exists>deck. snd (template_attempt ex_env ex_files_decor ex_items ''out.pptx'' ''decor.pptx'') ''out.pptx''
          = Some (Deck deck)
        \<and> slides deck = map (generated_slide ex_env ex_layout_content None) ex_items
        \<and> list_all (\<lambda>s. list_all is_placeholder (shapes s)) (slides deck))"
proof -
  let ?a = "template_attempt ex_env ex_files_decor ex_items ''out.pptx'' ''decor.pptx''"
  have f: "ex_files_decor ''decor.pptx'' = Some (Deck ex_decor)" by (simp add: ex_files_decor_def on_disk_def ex_env_def)
  then have o: "Presentation_open ex_files_decor ''decor.pptx'' = Inr ex_decor"
    by (simp add: Presentation_open_def)
  have l: "template_slide_layout ex_decor (find_best_content_slide ex_decor) = Inr ex_layout_content"
    unfolding ex_decor_best by (simp add: template_slide_layout_def getitem_def ex_decor_def)
  have "fst ?a = Inr ''out.pptx''"
    using template_attempt_layout[OF o l, of ex_env ex_items "''out.pptx''"] ex_writable by simp
  then have a: "?a = (Inr ''out.pptx'', snd ?a)" by (simp add: prod_eq_iff)
  note t = no_exemplar_without_positive_score[of ex_decor ex_slide_decor ex_files_decor "''decor.pptx''"
      ex_env ex_items "''out.pptx''" "''out.pptx''" "snd ?a"]
  have l1: "slide_layouts ex_decor ! 1 = ex_layout_content" by (simp add: ex_decor_def)
  from t ex_decor_best ex_decor_score f a show ?thesis unfolding l1 by blast
qed

subsection \<open>C10: Layout without exemplar\<close>

text \<open>
  C10. When no exemplar slide is found, the template path takes the layout at index 1 of
  the template without looking at the number of layouts. For a readable template with
  no exemplar and fewer than two layouts the attempt ends in IndexError before any slide
  is built, and the call is the fallback builder's; and whenever the attempt succeeds
  without an exemplar, the template has at least two layouts and every saved slide has
  the layout at index 1.
\<close>

theorem second_layout_taken_unchecked:
  "(files tp = Some (Deck d) \<and> tp \<noteq> [] \<and> find_best_content_slide d = None
      \<and> length (slide_layouts d) < 2
     \<longrightarrow> template_attempt e files slide_data output_path tp = (Inl IndexError, files)
       \<and> create_ppt_from_template e files slide_data output_path (Some tp)
         = create_basic_presentation e files slide_data output_path)
   \<and> (files tp = Some (Deck d) \<and> find_best_content_slide d = None
      \<and> template_attempt e files slide_data output_path tp = (Inr p, files')
     \<longrightarrow> 2 \<le> length (slide_layouts d)
       \<and> (\<exists>deck. files' output_path = Some (Deck deck)
            \<and> list_all (\<lambda>s. slide_layout s = slide_layouts d ! 1) (slides deck)))"
proof (intro conjI impI)
  assume a: "files tp = Some (Deck d) \<and> tp \<noteq> [] \<and> find_best_content_slide d = None
      \<and> length (slide_layouts d) < 2"
  then have o: "Presentation_open files tp = Inr d" by (simp add: Presentation_open_def)
  from a have l: "template_slide_layout d (find_best_content_slide d) = Inl IndexError"
    by (simp add: template_slide_layout_def getitem_def)
  from template_attempt_no_layout[OF o l]
  show t: "template_attempt e files slide_data output_path tp = (Inl IndexError, files)" .
  from a have "tp \<noteq> []" "files tp \<noteq> None" by auto
  from create_ppt_from_template_failed_attempt[where tp=tp and files=files, OF this,
      of e slide_data output_path IndexError] t
  show "create_ppt_from_template e files slide_data output_path (Some tp)
         = create_basic_presentation e files slide_data output_path" by simp
next
  assume a: "files tp = Some (Deck d) \<and> find_best_content_slide d = None
      \<and> template_attempt e files slide_data output_path tp = (Inr p, files')"
  then have o: "Presentation_open files tp = Inr d" by (simp add: Presentation_open_def)
  show len: "2 \<le> length (slide_layouts d)"
  proof (rule ccontr)
    assume "\<not> 2 \<le> length (slide_layouts d)"
    with a have "template_slide_layout d (find_best_content_slide d) = Inl IndexError"
      by (simp add: template_slide_layout_def getitem_def)
    from template_attempt_no_layout[OF o this] a show False by simp
  qed
  with a have l: "template_slide_layout d (find_best_content_slide d) = Inr (slide_layouts d ! 1)"
    by (simp add: template_slide_layout_def getitem_def)
  let ?deck = "snd (build_slides e (slide_layouts d ! 1) (find_best_content_slide d) slide_data
                     (d\<lparr>slides := []\<rparr>))"
  from template_attempt_layout[OF o l, of e slide_data output_path] a
  have "files' = write_file e files output_path (Deck ?deck)" by (auto split: if_splits)
  moreover have "list_all (\<lambda>s. slide_layout s = slide_layouts d ! 1) (slides ?deck)"
    by (rule build_slides_layouts) simp
  ultimately show "\<exists>deck. files' output_path = Some (Deck deck)
            \<and> list_all (\<lambda>s. slide_layout s = slide_layouts d ! 1) (slides deck)" by simp
qed

theorem second_layout_taken_unchecked_witness:
  "template_attempt ex_env ex_files ex_items ''out.pptx'' ''bare.pptx'' = (Inl IndexError, ex_files)
   \<and> create_ppt_from_template ex_env ex_files ex_items ''out.pptx'' (Some ''bare.pptx'')
       = create_basic_presentation ex_env ex_files ex_items ''out.pptx''
   \<and> (\<exists>deck. snd (template_attempt ex_env ex_files_plain ex_items ''out.pptx'' ''plain.pptx'') ''out.pptx''
          = Some (Deck deck)
        \<and> list_all (\<lambda>s. slide_layout s = ex_layout_content) (slides deck))"
proof -
  let ?a = "template_attempt ex_env ex_files_plain ex_items ''out.pptx'' ''plain.pptx''"
  have o: "Presentation_open ex_files_plain ''plain.pptx'' = Inr ex_plain"
    by (simp add: Presentation_open_def ex_files_plain_def on_disk_def ex_env_def)
  have b: "find_best_content_slide ex_plain = None"
    by (simp add: find_best_content_slide_def ex_plain_def)
  have l: "template_slide_layout ex_plain (find_best_content_slide ex_plain) = Inr ex_layout_content"
    unfolding b by (simp add: template_slide_layout_def getitem_def ex_plain_def)
  have "fst ?a = Inr ''out.pptx''"
    using template_attempt_layout[OF o l, of ex_env ex_items "''out.pptx''"] ex_writable by simp
  then have a: "?a = (Inr ''out.pptx'', snd ?a)" by (simp add: prod_eq_iff)
  show ?thesis
    using second_layout_taken_unchecked[of ex_files "''bare.pptx''" ex_bare ex_env ex_items
        "''out.pptx''" "''out.pptx''" ex_files]
      second_layout_taken_unchecked[of ex_files_plain "''plain.pptx''" ex_plain ex_env ex_items
        "''out.pptx''" "''out.pptx''" "snd ?a"]
      ex_files_at ex_best_bare a b
    by (simp add: ex_bare_def ex_files_plain_def on_disk_def ex_env_def ex_plain_def)
qed

end
